theory Spec2Isabelle
  imports Complex_Main "HOL-Library.List_Lexorder" "HOL-Library.Char_ord"
begin

section \<open>The status command of taskcluster-cli (cmds/status/status.go)\<close>

text \<open>
  The status command talks to four things outside the repository: the network
  (net/http), the JSON codec (encoding/json), the cache folder (configdir) and the
  clock (time). They are not part of the source, so they are parameters of the model:
  a record \<open>env\<close> of the library functions the code calls, and a record \<open>world\<close>
  of the state the code reads and changes (the clock, the cache folder, the log of
  the HTTP requests issued, what has been printed). Every function of status.go is a
  function from an \<open>env\<close> and a \<open>world\<close> to its Go results and the new \<open>world\<close>.
  Go's result pairs \<open>(value, err)\<close> stay pairs, with \<open>None\<close> for a nil error; a
  panic is the \<open>Panic\<close> case of \<open>result\<close>.
\<close>

subsection \<open>Types (status.go, lines 30-68)\<close>

text \<open>\<open>PingURLs\<close> is a Go \<open>map[string]string\<close>; a nil map and an empty one are both
  \<open>Map.empty\<close> (the code only reads, ranges over and marshals them).\<close>

type_synonym PingURLs = "string \<rightharpoonup> string"

text \<open>\<open>time.Time\<close> is an instant in nanoseconds since the epoch, \<open>time.Duration\<close> a
  number of nanoseconds in the range of int64.\<close>

record CachedURLs =
  LastUpdated :: int
  PingURLs :: PingURLs

record PingResponse =
  Alive :: bool
  Uptime :: real

record APIEntry =
  Name :: string
  Route :: string

record API =
  BaseURL :: string
  Entries :: "APIEntry list"

subsection \<open>Errors, panics and the outside world\<close>

text \<open>\<open>BadStatusCode\<close> and \<open>InvalidArguments\<close> are the two errors status.go builds
  itself (lines 231 and 246); the others come from the libraries.
  \<open>NilPointerDereference\<close> is the runtime panic of a method reading a field through
  a nil receiver.\<close>

datatype error =
    TransportError
  | BadStatusCode int string
  | DecodeError
  | CloseError
  | URLParseError
  | ReadError
  | MarshalError
  | WriteError
  | InvalidArguments
  | NilPointerDereference

datatype 'a result = Panic error | Return 'a

record response =
  StatusCode :: int
  Body :: string
  Close :: "error option"

datatype cache_file = Missing | Unreadable error | Contents string

datatype colour = Yellow | Magenta | Green

datatype out = Printf string | Colour colour string

text \<open>
  The library functions, as the code calls them:
  \<^item> \<open>http_Get url\<close>: \<open>http.Get\<close>, a transport error or a response (the network answers
    a URL the same way during one run);
  \<^item> \<open>decode_manifest\<close>, \<open>decode_API\<close>, \<open>decode_PingResponse\<close>: \<open>json.Decoder.Decode\<close>
    of a response body into a \<open>map[string]string\<close>, an \<open>API\<close>, a \<open>PingResponse\<close>;
  \<^item> \<open>url_Hostname s\<close>: \<open>url.Parse s\<close> followed by \<open>Hostname()\<close>;
  \<^item> \<open>range_map m\<close>: the key-value pairs of a Go map in the order in which a
    \<open>range\<close> statement visits them, which the runtime chooses;
  \<^item> \<open>json_MarshalIndent\<close>: \<open>json.MarshalIndent\<close> of a \<open>CachedURLs\<close>;
  \<^item> \<open>json_Unmarshal\<close>: into a nil \<open>*CachedURLs\<close>: the pointer (nil for the JSON
    literal null) and the error;
  \<^item> \<open>write_error path\<close>: the error of \<open>cache.WriteFile\<close> at that path, if it fails;
  \<^item> \<open>cache_file_name path\<close>: \<open>filepath.Join(cache.Path, path)\<close>.
\<close>

record env =
  http_Get :: "string \<Rightarrow> error + response"
  decode_manifest :: "string \<Rightarrow> error + (string \<rightharpoonup> string)"
  decode_API :: "string \<Rightarrow> error + API"
  decode_PingResponse :: "string \<Rightarrow> error + PingResponse"
  url_Hostname :: "string \<Rightarrow> error + string"
  range_map :: "(string \<rightharpoonup> string) \<Rightarrow> (string \<times> string) list"
  json_MarshalIndent :: "CachedURLs \<Rightarrow> error + string"
  json_Unmarshal :: "string \<Rightarrow> CachedURLs option \<times> error option"
  write_error :: "string \<Rightarrow> error option"
  cache_file_name :: "string \<Rightarrow> string"

record world =
  clock :: int
  files :: "string \<Rightarrow> cache_file"
  requests :: "string list"
  printed :: "out list"

text \<open>The package variables that \<open>init\<close> sets: \<open>pingURLs\<close>, \<open>validArgs\<close>, and the \<open>Use\<close>
  line of the registered command.\<close>

record globals =
  g_pingURLs :: PingURLs
  g_validArgs :: "string list"
  g_use :: string

subsection \<open>Constants (lines 19-28)\<close>

definition manifestURL :: string where
  "manifestURL = ''https://references.taskcluster.net/manifest.json''"

text \<open>\<open>filepath.Join("cmds", "status", "pingURLs.json")\<close>, with the separator of Unix.\<close>

definition pingURLsCachePath :: string where
  "pingURLsCachePath = ''cmds/status/pingURLs.json''"

definition Hour :: int where
  "Hour = 3600 * 1000000000"

definition maxDuration :: int where
  "maxDuration = 2 ^ 63 - 1"

definition minDuration :: int where
  "minDuration = - (2 ^ 63)"

subsection \<open>The cache folder (configdir.Config)\<close>

text \<open>\<open>cache.Exists\<close> is true unless the file is reported as not existing.\<close>

definition Exists :: "world \<Rightarrow> string \<Rightarrow> bool" where
  "Exists w fileName = (files w fileName \<noteq> Missing)"

definition ReadFile :: "world \<Rightarrow> string \<Rightarrow> error + string" where
  "ReadFile w fileName =
     (case files w fileName of
        Missing \<Rightarrow> Inl ReadError
      | Unreadable err \<Rightarrow> Inl err
      | Contents bytes \<Rightarrow> Inr bytes)"

definition WriteFile :: "env \<Rightarrow> string \<Rightarrow> string \<Rightarrow> world \<Rightarrow> error option \<times> world" where
  "WriteFile env fileName bytes w =
     (case write_error env fileName of
        Some err \<Rightarrow> (Some err, w)
      | None \<Rightarrow> (None, w\<lparr>files := (files w)(fileName := Contents bytes)\<rparr>))"

subsection \<open>Expired (lines 172-176)\<close>

text \<open>\<open>time.Since t\<close> is \<open>time.Now().Sub(t)\<close>: the difference of the two instants,
  and the largest or smallest \<open>Duration\<close> when the difference does not fit one.\<close>

definition Since :: "int \<Rightarrow> int \<Rightarrow> int" where
  "Since now t =
     (if now - t > maxDuration then maxDuration
      else if now - t < minDuration then minDuration
      else now - t)"

definition Expired :: "int \<Rightarrow> CachedURLs \<Rightarrow> int \<Rightarrow> bool" where
  "Expired now cachedURLs d = (Since now (LastUpdated cachedURLs) > d)"

subsection \<open>objectFromJSONURL (lines 218-236)\<close>

text \<open>The request is logged before anything else. The deferred \<open>Close\<close> only sets the
  error when there is none yet. The decoded object is the \<open>Inr\<close> result: after an
  error no caller reads the object it passed.\<close>

definition objectFromJSONURL ::
  "env \<Rightarrow> (string \<Rightarrow> error + 'a) \<Rightarrow> string \<Rightarrow> world \<Rightarrow> (error + 'a) \<times> world" where
  "objectFromJSONURL env decode urlReturningJSON w =
     (let w' = w\<lparr>requests := requests w @ [urlReturningJSON]\<rparr> in
      case http_Get env urlReturningJSON of
        Inl err \<Rightarrow> (Inl err, w')
      | Inr resp \<Rightarrow>
          if StatusCode resp \<noteq> 200
          then (Inl (BadStatusCode (StatusCode resp) urlReturningJSON), w')
          else (case decode (Body resp) of
                  Inl err \<Rightarrow> (Inl err, w')
                | Inr obj \<Rightarrow>
                    (case Close resp of
                       Some err2 \<Rightarrow> (Inl err2, w')
                     | None \<Rightarrow> (Inr obj, w'))))"

subsection \<open>ScrapePingURLs (lines 182-216)\<close>

text \<open>\<open>strings.SplitN(s, sep, 2)\<close> for a separator of one character: at most two
  pieces, cut at the first separator.\<close>

definition SplitN2 :: "string \<Rightarrow> char \<Rightarrow> string list" where
  "SplitN2 s sep =
     (if sep \<in> set s
      then [takeWhile (\<lambda>c. c \<noteq> sep) s, tl (dropWhile (\<lambda>c. c \<noteq> sep) s)]
      else [s])"

text \<open>The inner loop (lines 200-213) over the entries of one reference: the first
  entry named ping sets one key and ends the loop; a base URL that does not parse
  returns the error with the map as it is.\<close>

fun scrape_entries ::
  "env \<Rightarrow> API \<Rightarrow> APIEntry list \<Rightarrow> PingURLs \<Rightarrow> PingURLs \<times> error option" where
  "scrape_entries env reference [] pingURLs = (pingURLs, None)"
| "scrape_entries env reference (entry # rest) pingURLs =
     (if Name entry = ''ping''
      then (case url_Hostname env (BaseURL reference) of
              Inl err \<Rightarrow> (pingURLs, Some err)
            | Inr hostname \<Rightarrow>
                (let service = SplitN2 hostname (CHR ''.'') ! 0
                 in (pingURLs(service \<mapsto> BaseURL reference @ Route entry), None)))
      else scrape_entries env reference rest pingURLs)"

text \<open>The outer loop (lines 192-214) over the API URLs of the manifest, in the
  order of the range. A bare \<open>return\<close> returns the named results: the map built so
  far and the error.\<close>

fun scrape_apis ::
  "env \<Rightarrow> string list \<Rightarrow> PingURLs \<Rightarrow> world \<Rightarrow> (PingURLs \<times> error option) \<times> world" where
  "scrape_apis env [] pingURLs w = ((pingURLs, None), w)"
| "scrape_apis env (apiURL # rest) pingURLs w =
     (case objectFromJSONURL env (decode_API env) apiURL w of
        (Inl err, w') \<Rightarrow> ((pingURLs, Some err), w')
      | (Inr reference, w') \<Rightarrow>
          (case scrape_entries env reference (Entries reference) pingURLs of
             (pingURLs', Some err) \<Rightarrow> ((pingURLs', Some err), w')
           | (pingURLs', None) \<Rightarrow> scrape_apis env rest pingURLs' w'))"

definition ScrapePingURLs ::
  "env \<Rightarrow> string \<Rightarrow> world \<Rightarrow> (PingURLs \<times> error option) \<times> world" where
  "ScrapePingURLs env manifestURL' w =
     (let w0 = w\<lparr>printed := printed w @ [Colour Yellow (''Scraping ping URLs from '' @ manifestURL')]\<rparr>
      in case objectFromJSONURL env (decode_manifest env) manifestURL' w0 of
           (Inl err, w1) \<Rightarrow> ((Map.empty, Some err), w1)
         | (Inr allAPIs, w1) \<Rightarrow>
             scrape_apis env (map snd (range_map env allAPIs)) Map.empty w1)"

subsection \<open>The cache file (lines 130-170)\<close>

text \<open>\<open>PingURLs.Cache\<close>: the record is built before marshalling, and returned with
  the error when marshalling or writing fails.\<close>

definition PingURLs_Cache ::
  "env \<Rightarrow> string \<Rightarrow> PingURLs \<Rightarrow> world \<Rightarrow> (CachedURLs \<times> error option) \<times> world" where
  "PingURLs_Cache env cachePath p w =
     (let w0 = w\<lparr>printed := printed w @
                  [Colour Magenta (''Writing cache file '' @ cache_file_name env cachePath)]\<rparr>;
          cachedURLs = \<lparr>LastUpdated = clock w0, PingURLs = p\<rparr>
      in case json_MarshalIndent env cachedURLs of
           Inl err \<Rightarrow> ((cachedURLs, Some err), w0)
         | Inr bytes \<Rightarrow>
             (case WriteFile env cachePath bytes w0 of
                (err, w1) \<Rightarrow> ((cachedURLs, err), w1)))"

definition ReadCachedURLsFile ::
  "env \<Rightarrow> string \<Rightarrow> world \<Rightarrow> CachedURLs option \<times> error option" where
  "ReadCachedURLsFile env cachePath w =
     (case ReadFile w cachePath of
        Inl err \<Rightarrow> (None, Some err)
      | Inr cachedURLsBytes \<Rightarrow> json_Unmarshal env cachedURLsBytes)"

definition RefreshCache ::
  "env \<Rightarrow> string \<Rightarrow> string \<Rightarrow> world \<Rightarrow> (PingURLs \<times> error option) \<times> world" where
  "RefreshCache env manifestURL' cachePath w =
     (case ScrapePingURLs env manifestURL' w of
        ((pingURLs', Some err), w1) \<Rightarrow> ((pingURLs', Some err), w1)
      | ((pingURLs', None), w1) \<Rightarrow>
          (case PingURLs_Cache env cachePath pingURLs' w1 of
             ((cachedURLs, err), w2) \<Rightarrow> ((PingURLs cachedURLs, err), w2)))"

subsection \<open>NewPingURLs and init (lines 77-128)\<close>

text \<open>A read or decode error returns at line 121 with the named result \<open>pingURLs\<close>
  still nil. A nil \<open>cachedURLs\<close> without an error makes \<open>Expired\<close> panic.\<close>

definition NewPingURLs ::
  "env \<Rightarrow> world \<Rightarrow> (PingURLs \<times> error option) result \<times> world" where
  "NewPingURLs env w =
     (if \<not> Exists w pingURLsCachePath
      then (case RefreshCache env manifestURL pingURLsCachePath w of
              (r, w') \<Rightarrow> (Return r, w'))
      else (case ReadCachedURLsFile env pingURLsCachePath w of
              (cachedURLs, Some err) \<Rightarrow> (Return (Map.empty, Some err), w)
            | (None, None) \<Rightarrow> (Panic NilPointerDereference, w)
            | (Some cachedURLs, None) \<Rightarrow>
                if Expired (clock w) cachedURLs (Hour * 24)
                then (case RefreshCache env manifestURL pingURLsCachePath w of
                        (r, w') \<Rightarrow> (Return r, w'))
                else (Return (PingURLs cachedURLs, None), w)))"

definition init :: "env \<Rightarrow> world \<Rightarrow> globals result \<times> world" where
  "init env w =
     (case NewPingURLs env w of
        (Panic err, w') \<Rightarrow> (Panic err, w')
      | (Return (p, Some err), w') \<Rightarrow> (Panic err, w')
      | (Return (p, None), w') \<Rightarrow>
          (let vs = map fst (range_map env p)
           in (Return \<lparr>g_pingURLs = p, g_validArgs = vs,
                        g_use = foldl (\<lambda>u validArg. u @ '' ['' @ validArg @ '']'') ''status'' vs\<rparr>,
               w')))"

subsection \<open>The command (lines 178-180 and 238-277)\<close>

text \<open>The inner loop of \<open>validateArgs\<close>: is the argument one of the valid ones?\<close>

fun is_validArg :: "string \<Rightarrow> string list \<Rightarrow> bool" where
  "is_validArg arg [] = False"
| "is_validArg arg (validArg # rest) = (if arg = validArg then True else is_validArg arg rest)"

fun validateArgs :: "string list \<Rightarrow> string list \<Rightarrow> error option" where
  "validateArgs cmd_ValidArgs [] = None"
| "validateArgs cmd_ValidArgs (arg # args) =
     (if is_validArg arg cmd_ValidArgs then validateArgs cmd_ValidArgs args
      else Some InvalidArguments)"

definition preRun :: "string list \<Rightarrow> string list \<Rightarrow> error option" where
  "preRun cmd_ValidArgs args = validateArgs cmd_ValidArgs args"

text \<open>Go's index expression \<open>m[k]\<close> on a \<open>map[string]string\<close>: the empty string
  for a key that is not in the map.\<close>

definition map_index :: "(string \<rightharpoonup> string) \<Rightarrow> string \<Rightarrow> string" where
  "map_index m k = (case m k of None \<Rightarrow> [] | Some v \<Rightarrow> v)"

definition respbody :: "env \<Rightarrow> PingURLs \<Rightarrow> string \<Rightarrow> world \<Rightarrow> error option \<times> world" where
  "respbody env pingURLs' service w =
     (case objectFromJSONURL env (decode_PingResponse env)
             (map_index pingURLs' service) w of
        (Inl err, w') \<Rightarrow> (Some err, w')
      | (Inr servstat, w') \<Rightarrow>
          if Alive servstat
          then (None, w'\<lparr>printed := printed w' @
                    [Printf (''      '' @ service @ [CHR 0x0A]),
                     Colour Green (''      '' @ ''Alive'' @ [CHR 0x0A])]\<rparr>)
          else (None, w'))"

fun status_loop ::
  "env \<Rightarrow> PingURLs \<Rightarrow> string list \<Rightarrow> world \<Rightarrow> error option result \<times> world" where
  "status_loop env pingURLs' [] w = (Return None, w)"
| "status_loop env pingURLs' (service # rest) w =
     (case respbody env pingURLs' service w of
        (Some err, w') \<Rightarrow> (Panic err, w')
      | (None, w') \<Rightarrow> status_loop env pingURLs' rest w')"

definition status :: "env \<Rightarrow> globals \<Rightarrow> string list \<Rightarrow> world \<Rightarrow> error option result \<times> world" where
  "status env g args w =
     status_loop env (g_pingURLs g) (if length args = 0 then g_validArgs g else args) w"

text \<open>How cobra runs the registered command: \<open>PreRunE\<close>, and \<open>RunE\<close> only when
  \<open>PreRunE\<close> returned no error. The command's \<open>ValidArgs\<close> are \<open>validArgs\<close>.\<close>

definition execute :: "env \<Rightarrow> globals \<Rightarrow> string list \<Rightarrow> world \<Rightarrow> error option result \<times> world" where
  "execute env g args w =
     (case preRun (g_validArgs g) args of
        Some err \<Rightarrow> (Return (Some err), w)
      | None \<Rightarrow> status env g args w)"

text \<open>One run of the program with the status command: the package's \<open>init\<close>, then
  the command on the arguments.\<close>

definition run_status :: "env \<Rightarrow> string list \<Rightarrow> world \<Rightarrow> error option result \<times> world" where
  "run_status env args w =
     (case init env w of
        (Panic err, w') \<Rightarrow> (Panic err, w')
      | (Return g, w') \<Rightarrow> execute env g args w')"

subsection \<open>A small network and cache folder, for running the functions\<close>

text \<open>
  The manifest at \<open>manifestURL\<close> lists one service, queue. A second manifest lists
  three: queue, whose reference has a ping entry after another entry; auth, whose
  reference has no ping entry; index, whose reference answers 500. The ping endpoint
  of queue says alive, that of auth says not alive, that of index answers 500.
  The decoders know exactly these bodies.
\<close>

definition manifest2URL :: string where
  "manifest2URL = ''https://references.example.com/manifest.json''"

definition example_manifest :: "string \<rightharpoonup> string" where
  "example_manifest = [''queue'' \<mapsto> ''https://queue.example.com/ref'']"

definition example_manifest2 :: "string \<rightharpoonup> string" where
  "example_manifest2 =
     [''queue'' \<mapsto> ''https://queue.example.com/ref'',
      ''auth'' \<mapsto> ''https://auth.example.com/ref'',
      ''index'' \<mapsto> ''https://index.example.com/ref'']"

definition queue_API :: API where
  "queue_API = \<lparr>BaseURL = ''https://queue.taskcluster.net'',
                 Entries = [\<lparr>Name = ''ping'', Route = ''/ping''\<rparr>]\<rparr>"

definition auth_API :: API where
  "auth_API = \<lparr>BaseURL = ''https://auth.taskcluster.net'',
                Entries = [\<lparr>Name = ''listClients'', Route = ''/clients''\<rparr>]\<rparr>"

definition ok :: "string \<Rightarrow> error + response" where
  "ok body = Inr \<lparr>StatusCode = 200, Body = body, Close = None\<rparr>"

definition example_Get :: "string \<Rightarrow> error + response" where
  \<open>example_Get u =
     (if u = manifestURL then ok ''{"queue": "https://queue.example.com/ref"}''
      else if u = manifest2URL then ok ''manifest2''
      else if u = ''https://queue.example.com/ref''
        then ok ''{"baseUrl":"https://queue.taskcluster.net","entries":[{"name":"ping","route":"/ping"}]}''
      else if u = ''https://auth.example.com/ref'' then ok ''auth reference''
      else if u = ''https://index.example.com/ref''
        then Inr \<lparr>StatusCode = 500, Body = [], Close = None\<rparr>
      else if u = ''https://queue.taskcluster.net/ping'' then ok ''{"alive": true, "uptime": 12.5}''
      else if u = ''https://auth.taskcluster.net/ping'' then ok ''{"alive": false, "uptime": 0}''
      else if u = ''https://index.taskcluster.net/ping''
        then Inr \<lparr>StatusCode = 500, Body = [], Close = None\<rparr>
      else Inl TransportError)\<close>

definition example_decode_manifest :: "string \<Rightarrow> error + (string \<rightharpoonup> string)" where
  \<open>example_decode_manifest body =
     (if body = ''{"queue": "https://queue.example.com/ref"}'' then Inr example_manifest
      else if body = ''manifest2'' then Inr example_manifest2
      else Inl DecodeError)\<close>

definition example_decode_API :: "string \<Rightarrow> error + API" where
  \<open>example_decode_API body =
     (if body = ''{"baseUrl":"https://queue.taskcluster.net","entries":[{"name":"ping","route":"/ping"}]}''
      then Inr queue_API
      else if body = ''auth reference'' then Inr auth_API
      else Inl DecodeError)\<close>

definition example_decode_PingResponse :: "string \<Rightarrow> error + PingResponse" where
  \<open>example_decode_PingResponse body =
     (if body = ''{"alive": true, "uptime": 12.5}'' then Inr \<lparr>Alive = True, Uptime = 12.5\<rparr>
      else if body = ''{"alive": false, "uptime": 0}'' then Inr \<lparr>Alive = False, Uptime = 0\<rparr>
      else Inl DecodeError)\<close>

definition example_Hostname :: "string \<Rightarrow> error + string" where
  "example_Hostname s =
     (if s = ''https://queue.taskcluster.net'' then Inr ''queue.taskcluster.net''
      else if s = ''https://auth.taskcluster.net'' then Inr ''auth.taskcluster.net''
      else Inl URLParseError)"

text \<open>A range order for the maps whose keys are among \<open>ks\<close>: the order of \<open>ks\<close>.\<close>

definition range_by :: "string list \<Rightarrow> (string \<rightharpoonup> string) \<Rightarrow> (string \<times> string) list" where
  "range_by ks m = List.map_filter (\<lambda>k. map_option (Pair k) (m k)) ks"

definition example_pingURLs :: PingURLs where
  "example_pingURLs = [''queue'' \<mapsto> ''https://queue.taskcluster.net/ping'']"

text \<open>The codec of the cache file knows one document, the record of
  \<open>example_pingURLs\<close> written when the clock shows 1000.\<close>

definition example_Marshal :: "CachedURLs \<Rightarrow> error + string" where
  "example_Marshal c =
     (if PingURLs c ''queue'' = Some ''https://queue.taskcluster.net/ping''
      then Inr ''cache of queue'' else Inl MarshalError)"

definition example_Unmarshal :: "string \<Rightarrow> CachedURLs option \<times> error option" where
  "example_Unmarshal bytes =
     (if bytes = ''cache of queue''
      then (Some \<lparr>LastUpdated = 1000, PingURLs = example_pingURLs\<rparr>, None)
      else if bytes = ''null'' then (None, None)
      else (None, Some DecodeError))"

definition example_env :: env where
  "example_env =
     \<lparr>http_Get = example_Get,
      decode_manifest = example_decode_manifest,
      decode_API = example_decode_API,
      decode_PingResponse = example_decode_PingResponse,
      url_Hostname = example_Hostname,
      range_map = range_by [''queue'', ''auth'', ''index''],
      json_MarshalIndent = example_Marshal,
      json_Unmarshal = example_Unmarshal,
      write_error = (\<lambda>path. None),
      cache_file_name = (\<lambda>path. ''/home/user/.cache/taskcluster/taskcluster-cli/'' @ path)\<rparr>"

text \<open>The world at the start of a run: the clock at \<open>now\<close>, the cache file in the
  state \<open>f\<close>, nothing requested and nothing printed.\<close>

definition start :: "int \<Rightarrow> cache_file \<Rightarrow> world" where
  "start now f =
     \<lparr>clock = now, files = (\<lambda>path. if path = pingURLsCachePath then f else Missing),
      requests = [], printed = []\<rparr>"

text \<open>Package variables with three services, as \<open>init\<close> could have set them.\<close>

definition example_globals :: globals where
  "example_globals =
     \<lparr>g_pingURLs = [''queue'' \<mapsto> ''https://queue.taskcluster.net/ping'',
                     ''index'' \<mapsto> ''https://index.taskcluster.net/ping'',
                     ''auth'' \<mapsto> ''https://auth.taskcluster.net/ping''],
      g_validArgs = [''queue'', ''index'', ''auth''],
      g_use = ''status [queue] [index] [auth]''\<rparr>"

subsection \<open>encoding/json on the cache file\<close>

text \<open>
  \<open>json.MarshalIndent\<close> and \<open>json.Unmarshal\<close> belong to the library and stay parameters
  of \<open>env\<close>. The definitions of this subsection model what the package does on the one
  type the program passes to them, \<open>CachedURLs\<close>, byte by byte, so that the way of a map
  through the cache file can be followed:
  \<^item> a Go string is written as a JSON string coerced to valid UTF-8: every byte that
    does not start a valid UTF-8 sequence is written as the escape of U+FFFD; the
    quote, the backslash, the control characters, the characters \<open><\<close>, \<open>>\<close>, \<open>&\<close> and the
    separators U+2028 and U+2029 are escaped, every other character is written as it
    is;
  \<^item> the members of a map are written in the order of their keys, and the document is
    indented by two spaces;
  \<^item> the decoder reads a string literal with all the escapes of JSON, and replaces
    invalid UTF-8 that stands in the literal by U+FFFD;
  \<^item> \<open>Time.MarshalJSON\<close> and \<open>Time.UnmarshalJSON\<close> are the parameters \<open>time_Format\<close> and
    \<open>time_Parse\<close>: the RFC 3339 text that stands between the quotes;
  \<^item> the decoder is modelled on the documents of the shape that the encoder writes: an
    object with the members \<open>lastUpdated\<close> and \<open>pingURLs\<close> in this order, any white space
    between the tokens, \<open>pingURLs\<close> being null or an object of strings. What
    \<open>json.Unmarshal\<close> does with any other document, or with a time that does not
    parse, is the parameter \<open>other\<close>.
\<close>

definition dq :: char where "dq = CHR 0x22"
definition bs :: char where "bs = CHR 0x5C"
definition nl :: char where "nl = CHR 0x0A"

text \<open>\<open>utf8.DecodeRune\<close>: \<open>rune_size s\<close> is the number of bytes of the valid UTF-8
  sequence at the head of \<open>s\<close>, and 0 when there is none (the package then returns
  \<open>RuneError\<close> with the width 1). The first byte gives the length, and the range of
  the second byte excludes the overlong forms, the surrogates and what lies beyond
  U+10FFFF.\<close>

definition rune_len :: "nat \<Rightarrow> nat" where
  "rune_len b0 =
     (if b0 < 0x80 then 1
      else if 0xC2 \<le> b0 \<and> b0 \<le> 0xDF then 2
      else if 0xE0 \<le> b0 \<and> b0 \<le> 0xEF then 3
      else if 0xF0 \<le> b0 \<and> b0 \<le> 0xF4 then 4
      else 0)"

definition second_lo :: "nat \<Rightarrow> nat" where
  "second_lo b0 = (if b0 = 0xE0 then 0xA0 else if b0 = 0xF0 then 0x90 else 0x80)"

definition second_hi :: "nat \<Rightarrow> nat" where
  "second_hi b0 = (if b0 = 0xED then 0x9F else if b0 = 0xF4 then 0x8F else 0xBF)"

definition cont :: "char \<Rightarrow> bool" where
  "cont c = (0x80 \<le> (of_char c :: nat) \<and> (of_char c :: nat) \<le> 0xBF)"

definition rune_size :: "string \<Rightarrow> nat" where
  "rune_size s =
     (case s of
        [] \<Rightarrow> 0
      | c # cs \<Rightarrow>
          (let b0 = of_char c; n = rune_len b0 in
           if n \<le> 1 then n
           else if length cs < n - 1 then 0
           else if \<not> (second_lo b0 \<le> of_char (cs ! 0) \<and> (of_char (cs ! 0) :: nat) \<le> second_hi b0) then 0
           else if 3 \<le> n \<and> \<not> cont (cs ! 1) then 0
           else if 4 \<le> n \<and> \<not> cont (cs ! 2) then 0
           else n))"

text \<open>\<open>utf8.ValidString\<close>.\<close>

fun valid_utf8 :: "string \<Rightarrow> bool" where
  "valid_utf8 [] = True"
| "valid_utf8 (c # cs) =
     (0 < rune_size (c # cs) \<and> valid_utf8 (drop (rune_size (c # cs) - 1) cs))"

text \<open>The UTF-8 encoding of U+FFFD.\<close>

definition replacement :: string where
  "replacement = [CHR 0xEF, CHR 0xBF, CHR 0xBD]"

text \<open>The encoder of strings (with the escaping of HTML that \<open>Marshal\<close> switches
  on), without the quotes around the result. Backspace and form feed have their
  short escapes, as in the current package; earlier versions wrote them with four
  hexadecimal digits, which \<open>read_string\<close> reads as the same characters.\<close>

definition html_safe :: "char \<Rightarrow> bool" where
  "html_safe c =
     (0x20 \<le> (of_char c :: nat) \<and> (of_char c :: nat) < 0x80
      \<and> c \<noteq> dq \<and> c \<noteq> bs \<and> c \<noteq> CHR ''<'' \<and> c \<noteq> CHR ''>'' \<and> c \<noteq> CHR ''&'')"

definition hex :: "nat \<Rightarrow> char" where
  "hex n = ''0123456789abcdef'' ! n"

definition escape_ascii :: "char \<Rightarrow> string" where
  "escape_ascii c =
     (if c = bs \<or> c = dq then [bs, c]
      else if c = CHR 0x08 then [bs, CHR ''b'']
      else if c = CHR 0x0C then [bs, CHR ''f'']
      else if c = CHR 0x0A then [bs, CHR ''n'']
      else if c = CHR 0x0D then [bs, CHR ''r'']
      else if c = CHR 0x09 then [bs, CHR ''t'']
      else [bs, CHR ''u'', CHR ''0'', CHR ''0'', hex (of_char c div 16), hex (of_char c mod 16)])"

fun escape :: "string \<Rightarrow> string" where
  "escape [] = []"
| "escape (c # cs) =
     (if (of_char c :: nat) < 0x80
      then (if html_safe c then [c] else escape_ascii c) @ escape cs
      else if rune_size (c # cs) = 0
      then [bs, CHR ''u'', CHR ''f'', CHR ''f'', CHR ''f'', CHR ''d''] @ escape cs
      else if take 3 (c # cs) = [CHR 0xE2, CHR 0x80, CHR 0xA8]
      then [bs, CHR ''u'', CHR ''2'', CHR ''0'', CHR ''2'', CHR ''8''] @ escape (drop 2 cs)
      else if take 3 (c # cs) = [CHR 0xE2, CHR 0x80, CHR 0xA9]
      then [bs, CHR ''u'', CHR ''2'', CHR ''0'', CHR ''2'', CHR ''9''] @ escape (drop 2 cs)
      else c # take (rune_size (c # cs) - 1) cs @ escape (drop (rune_size (c # cs) - 1) cs))"

text \<open>The decoder of strings: \<open>getu4\<close> reads the four hexadecimal digits of an
  escaped code unit, \<open>encode_rune\<close> is \<open>utf8.EncodeRune\<close>.\<close>

definition hexval :: "char \<Rightarrow> nat option" where
  "hexval c =
     (let b = of_char c in
      if 0x30 \<le> b \<and> b \<le> 0x39 then Some (b - 0x30)
      else if 0x61 \<le> b \<and> b \<le> 0x66 then Some (b - 0x61 + 10)
      else if 0x41 \<le> b \<and> b \<le> 0x46 then Some (b - 0x41 + 10)
      else None)"

definition u4 :: "string \<Rightarrow> nat option" where
  "u4 s =
     (case s of
        a # b # c # d # rest \<Rightarrow>
          (case (hexval a, hexval b, hexval c, hexval d) of
             (Some w, Some x, Some y, Some z) \<Rightarrow> Some (((w * 16 + x) * 16 + y) * 16 + z)
           | _ \<Rightarrow> None)
      | _ \<Rightarrow> None)"

definition getu4 :: "string \<Rightarrow> nat option" where
  "getu4 s = (case s of a # b # rest \<Rightarrow> if a = bs \<and> b = CHR ''u'' then u4 rest else None | _ \<Rightarrow> None)"

definition encode_rune :: "nat \<Rightarrow> string" where
  "encode_rune r =
     (if r < 0x80 then [char_of r]
      else if r < 0x800 then [char_of (0xC0 + r div 64), char_of (0x80 + r mod 64)]
      else if 0xD800 \<le> r \<and> r < 0xE000 then replacement
      else if r < 0x10000
        then [char_of (0xE0 + r div 4096), char_of (0x80 + r div 64 mod 64), char_of (0x80 + r mod 64)]
      else if r < 0x110000
        then [char_of (0xF0 + r div 262144), char_of (0x80 + r div 4096 mod 64),
              char_of (0x80 + r div 64 mod 64), char_of (0x80 + r mod 64)]
      else replacement)"

definition unescape :: "char \<Rightarrow> char option" where
  "unescape e =
     (if e = dq \<or> e = bs \<or> e = CHR ''/'' \<or> e = CHR 0x27 then Some e
      else if e = CHR ''b'' then Some (CHR 0x08)
      else if e = CHR ''f'' then Some (CHR 0x0C)
      else if e = CHR ''n'' then Some (CHR 0x0A)
      else if e = CHR ''r'' then Some (CHR 0x0D)
      else if e = CHR ''t'' then Some (CHR 0x09)
      else None)"

definition more ::
  "string \<Rightarrow> string \<Rightarrow> (string \<times> string \<times> string) option \<Rightarrow> (string \<times> string \<times> string) option" where
  "more raw dec r = map_option (\<lambda>(raw', dec', rest). (raw @ raw', dec @ dec', rest)) r"

text \<open>\<open>read_string s\<close> reads a string literal whose opening quote has been read:
  the bytes of the literal up to the closing quote, the string they stand for, and
  the input after the closing quote; \<open>None\<close> when the literal is malformed. A valid
  UTF-8 sequence is copied (decoding and encoding a valid rune gives its bytes
  back).\<close>

fun read_string :: "string \<Rightarrow> (string \<times> string \<times> string) option" where
  "read_string [] = None"
| "read_string (c # cs) =
     (if c = dq then Some ([], [], cs)
      else if c = bs then
        (case cs of
           [] \<Rightarrow> None
         | e # es \<Rightarrow>
             if e = CHR ''u'' then
               (case u4 es of
                  None \<Rightarrow> None
                | Some r \<Rightarrow>
                    if 0xD800 \<le> r \<and> r < 0xE000 then
                      (case getu4 (drop 4 es) of
                         None \<Rightarrow> more (bs # e # take 4 es) replacement (read_string (drop 4 es))
                       | Some r1 \<Rightarrow>
                           if r < 0xDC00 \<and> 0xDC00 \<le> r1 \<and> r1 < 0xE000
                           then more (bs # e # take 10 es)
                                  (encode_rune (0x10000 + (r - 0xD800) * 1024 + (r1 - 0xDC00)))
                                  (read_string (drop 10 es))
                           else more (bs # e # take 4 es) replacement (read_string (drop 4 es)))
                    else more (bs # e # take 4 es) (encode_rune r) (read_string (drop 4 es)))
             else (case unescape e of
                     None \<Rightarrow> None
                   | Some d \<Rightarrow> more [bs, e] [d] (read_string es)))
      else if (of_char c :: nat) < 0x20 then None
      else if (of_char c :: nat) < 0x80 then more [c] [c] (read_string cs)
      else if rune_size (c # cs) = 0 then more [c] replacement (read_string cs)
      else more (c # take (rune_size (c # cs) - 1) cs) (c # take (rune_size (c # cs) - 1) cs)
             (read_string (drop (rune_size (c # cs) - 1) cs)))"


text \<open>A string coerced to valid UTF-8.\<close>

fun coerce :: "string \<Rightarrow> string" where
  "coerce [] = []"
| "coerce (c # cs) =
     (if (of_char c :: nat) < 0x80 then c # coerce cs
      else if rune_size (c # cs) = 0 then replacement @ coerce cs
      else c # take (rune_size (c # cs) - 1) cs @ coerce (drop (rune_size (c # cs) - 1) cs))"

definition coerce_pair :: "string \<times> string \<Rightarrow> string \<times> string" where
  "coerce_pair kv = (coerce (fst kv), coerce (snd kv))"

text \<open>The decoder of the document. \<open>expect c s\<close> skips white space and reads the
  character \<open>c\<close>. In \<open>read_pairs n\<close> the number \<open>n\<close> bounds the members still to
  read; \<open>read_map\<close> passes the length of the input, which is always enough.\<close>

definition is_space :: "char \<Rightarrow> bool" where
  "is_space c = (c = CHR '' '' \<or> c = CHR 0x09 \<or> c = CHR 0x0A \<or> c = CHR 0x0D)"

definition expect :: "char \<Rightarrow> string \<Rightarrow> string option" where
  "expect c s =
     (case dropWhile is_space s of
        [] \<Rightarrow> None
      | x # xs \<Rightarrow> if x = c then Some xs else None)"

definition read_literal :: "string \<Rightarrow> (string \<times> string \<times> string) option" where
  "read_literal s = (case expect dq s of None \<Rightarrow> None | Some s' \<Rightarrow> read_string s')"

fun read_pairs :: "nat \<Rightarrow> string \<Rightarrow> ((string \<times> string) list \<times> string) option" where
  "read_pairs 0 s = None"
| "read_pairs (Suc n) s =
     (case read_literal s of
        None \<Rightarrow> None
      | Some (raw_k, k, s1) \<Rightarrow>
     (case expect (CHR '':'') s1 of
        None \<Rightarrow> None
      | Some s2 \<Rightarrow>
     (case read_literal s2 of
        None \<Rightarrow> None
      | Some (raw_v, v, s3) \<Rightarrow>
     (case dropWhile is_space s3 of
        [] \<Rightarrow> None
      | c # s4 \<Rightarrow>
          if c = CHR '','' then map_option (\<lambda>(kvs, r). ((k, v) # kvs, r)) (read_pairs n s4)
          else if c = CHR ''}'' then Some ([(k, v)], s4)
          else None))))"

definition read_map :: "string \<Rightarrow> ((string \<times> string) list \<times> string) option" where
  "read_map s =
     (let s' = dropWhile is_space s in
      if take 4 s' = ''null'' then Some ([], drop 4 s')
      else (case expect (CHR ''{'') s' of
              None \<Rightarrow> None
            | Some s1 \<Rightarrow>
                (case expect (CHR ''}'') s1 of
                   Some s2 \<Rightarrow> Some ([], s2)
                 | None \<Rightarrow> read_pairs (length s1) s1)))"

definition read_document :: "string \<Rightarrow> (string \<times> (string \<times> string) list) option" where
  "read_document s =
     (case expect (CHR ''{'') s of
        None \<Rightarrow> None
      | Some s1 \<Rightarrow>
     (case read_literal s1 of
        None \<Rightarrow> None
      | Some (raw1, k1, s2) \<Rightarrow>
     (if k1 \<noteq> ''lastUpdated'' then None else
     (case expect (CHR '':'') s2 of
        None \<Rightarrow> None
      | Some s3 \<Rightarrow>
     (case read_literal s3 of
        None \<Rightarrow> None
      | Some (raw, txt, s4) \<Rightarrow>
     (case expect (CHR '','') s4 of
        None \<Rightarrow> None
      | Some s5 \<Rightarrow>
     (case read_literal s5 of
        None \<Rightarrow> None
      | Some (raw2, k2, s6) \<Rightarrow>
     (if k2 \<noteq> ''pingURLs'' then None else
     (case expect (CHR '':'') s6 of
        None \<Rightarrow> None
      | Some s7 \<Rightarrow>
     (case read_map s7 of
        None \<Rightarrow> None
      | Some (kvs, s8) \<Rightarrow>
     (case expect (CHR ''}'') s8 of
        None \<Rightarrow> None
      | Some s9 \<Rightarrow>
          if dropWhile is_space s9 = [] then Some (raw, kvs) else None)))))))))))"

definition Unmarshal_CachedURLs ::
  "(string \<Rightarrow> error + int) \<Rightarrow> (string \<Rightarrow> CachedURLs option \<times> error option) \<Rightarrow>
   string \<Rightarrow> CachedURLs option \<times> error option" where
  "Unmarshal_CachedURLs time_Parse other bytes =
     (case read_document bytes of
        None \<Rightarrow> other bytes
      | Some (raw, kvs) \<Rightarrow>
          (case time_Parse raw of
             Inl err \<Rightarrow> other bytes
           | Inr t \<Rightarrow>
               (Some \<lparr>LastUpdated = t,
                      PingURLs = foldl (\<lambda>m kv. m(fst kv \<mapsto> snd kv)) Map.empty kvs\<rparr>,
                None)))"

text \<open>The encoder of the document. An empty map is written as \<open>{}\<close> (a nil map, which
  the model does not tell from an empty one, is written as null by Go; both are read
  back as a map without keys).\<close>

definition write_literal :: "string \<Rightarrow> string" where
  "write_literal s = dq # escape s @ [dq]"

definition write_member :: "string \<times> string \<Rightarrow> string" where
  "write_member kv =
     nl # ''    '' @ write_literal (fst kv) @ '': '' @ write_literal (snd kv)"

fun write_members :: "(string \<times> string) list \<Rightarrow> string" where
  "write_members [] = []"
| "write_members [kv] = write_member kv"
| "write_members (kv # kvs) = write_member kv @ '','' @ write_members kvs"

definition sorted_pairs :: "(string \<rightharpoonup> string) \<Rightarrow> (string \<times> string) list" where
  "sorted_pairs m = map (\<lambda>k. (k, map_index m k)) (sorted_list_of_set (dom m))"

definition write_map :: "(string \<rightharpoonup> string) \<Rightarrow> string" where
  "write_map m =
     (if dom m = {} then ''{}''
      else ''{'' @ write_members (sorted_pairs m) @ nl # ''  }'')"

definition MarshalIndent_CachedURLs :: "(int \<Rightarrow> error + string) \<Rightarrow> CachedURLs \<Rightarrow> error + string" where
  "MarshalIndent_CachedURLs time_Format c =
     (case time_Format (LastUpdated c) of
        Inl err \<Rightarrow> Inl err
      | Inr txt \<Rightarrow>
          Inr (''{'' @ nl # ''  '' @ dq # ''lastUpdated'' @ dq # '': '' @ dq # txt @ dq # '','' @
               nl # ''  '' @ dq # ''pingURLs'' @ dq # '': '' @ write_map (PingURLs c) @ nl # ''}''))"


text \<open>The example environment with the codec above, a time package that knows one
  instant, and a map whose only key is the byte 0xFF.\<close>

definition example_time_Format :: "int \<Rightarrow> error + string" where
  "example_time_Format t =
     (if t = 1496275200000000000 then Inr ''2017-06-01T00:00:00Z'' else Inl MarshalError)"

definition example_time_Parse :: "string \<Rightarrow> error + int" where
  "example_time_Parse tx =
     (if tx = ''2017-06-01T00:00:00Z'' then Inr 1496275200000000000 else Inl DecodeError)"

definition json_env :: env where
  "json_env =
     example_env
       \<lparr>json_MarshalIndent := MarshalIndent_CachedURLs example_time_Format,
        json_Unmarshal :=
          Unmarshal_CachedURLs example_time_Parse (\<lambda>bytes. (None, Some DecodeError))\<rparr>"

definition invalid_pingURLs :: PingURLs where
  "invalid_pingURLs = [[CHR 0xFF] \<mapsto> ''https://queue.taskcluster.net/ping'']"

section \<open>Staleness of the cache\<close>

text \<open>
  C1. For every cache record and the threshold of 24 hours, \<open>Expired\<close> is true exactly
  when the time from \<open>LastUpdated\<close> to the wall clock's now is more than 24 hours,
  also where \<open>time.Since\<close> saturates; a record exactly 24 hours old is not stale.
\<close>

theorem Expired_iff_older_than_24h:
  "Expired now R (Hour * 24) = (now - LastUpdated R > 24 * Hour)
   \<and> \<not> Expired (LastUpdated R + 24 * Hour) R (Hour * 24)"
  by (simp add: Expired_def Since_def Hour_def maxDuration_def minDuration_def)

section \<open>Fetching and decoding one URL\<close>

lemma objectFromJSONURL_world:
  "snd (objectFromJSONURL env dec u w) = w\<lparr>requests := requests w @ [u]\<rparr>"
  by (simp add: objectFromJSONURL_def Let_def split: sum.splits option.splits)

lemma objectFromJSONURL_ok:
  "http_Get env u = Inr resp \<Longrightarrow> StatusCode resp = 200 \<Longrightarrow> dec (Body resp) = Inr x \<Longrightarrow>
   Close resp = None \<Longrightarrow>
   objectFromJSONURL env dec u w = (Inr x, w\<lparr>requests := requests w @ [u]\<rparr>)"
  by (simp add: objectFromJSONURL_def Let_def)

lemma objectFromJSONURL_bad_status:
  "http_Get env u = Inr resp \<Longrightarrow> StatusCode resp \<noteq> 200 \<Longrightarrow>
   objectFromJSONURL env dec u w =
     (Inl (BadStatusCode (StatusCode resp) u), w\<lparr>requests := requests w @ [u]\<rparr>)"
  by (simp add: objectFromJSONURL_def Let_def)

section \<open>Pinging one service\<close>

text \<open>
  C9. For every service whose ping succeeds (the request returns status 200, the body
  decodes, the body closes), \<open>respbody\<close> returns no error; when the decoded report
  has \<open>alive\<close> true it prints the service name and then a green \<open>Alive\<close> line, and when
  \<open>alive\<close> is false it prints nothing.
\<close>

theorem respbody_prints_Alive_or_nothing:
  assumes "http_Get env (map_index p service) = Inr resp"
    and "StatusCode resp = 200"
    and "decode_PingResponse env (Body resp) = Inr servstat"
    and "Close resp = None"
  shows "fst (respbody env p service w) = None
       \<and> printed (snd (respbody env p service w)) =
           printed w @ (if Alive servstat
                        then [Printf (''      '' @ service @ [CHR 0x0A]),
                              Colour Green (''      Alive'' @ [CHR 0x0A])]
                        else [])"
  using assms by (simp add: respbody_def objectFromJSONURL_ok)

theorem respbody_prints_Alive_or_nothing_witness:
  "fst (respbody example_env example_pingURLs ''queue'' (start 0 Missing)) = None
   \<and> printed (snd (respbody example_env example_pingURLs ''queue'' (start 0 Missing))) =
       [Printf (''      queue'' @ [CHR 0x0A]), Colour Green (''      Alive'' @ [CHR 0x0A])]
   \<and> fst (respbody example_env [''auth'' \<mapsto> ''https://auth.taskcluster.net/ping''] ''auth''
            (start 0 Missing)) = None
   \<and> printed (snd (respbody example_env [''auth'' \<mapsto> ''https://auth.taskcluster.net/ping'']
            ''auth'' (start 0 Missing))) = []"
  using respbody_prints_Alive_or_nothing [of example_env example_pingURLs "''queue''"
      "\<lparr>StatusCode = 200, Body = ''{\"alive\": true, \"uptime\": 12.5}'', Close = None\<rparr>"
      "\<lparr>Alive = True, Uptime = 12.5\<rparr>" "start 0 Missing"]
    respbody_prints_Alive_or_nothing [of example_env
      "[''auth'' \<mapsto> ''https://auth.taskcluster.net/ping'']" "''auth''"
      "\<lparr>StatusCode = 200, Body = ''{\"alive\": false, \"uptime\": 0}'', Close = None\<rparr>"
      "\<lparr>Alive = False, Uptime = 0\<rparr>" "start 0 Missing"]
  by (simp add: example_env_def example_Get_def example_pingURLs_def map_index_def ok_def
      manifestURL_def manifest2URL_def example_decode_PingResponse_def start_def)

lemma respbody_bad_status:
  "http_Get env (map_index p service) = Inr resp \<Longrightarrow> StatusCode resp \<noteq> 200 \<Longrightarrow>
   respbody env p service w =
     (Some (BadStatusCode (StatusCode resp) (map_index p service)),
      w\<lparr>requests := requests w @ [map_index p service]\<rparr>)"
  by (simp add: respbody_def objectFromJSONURL_bad_status)

lemma respbody_requests:
  "requests (snd (respbody env p service w)) = requests w @ [map_index p service]"
proof -
  have "snd (objectFromJSONURL env (decode_PingResponse env) (map_index p service) w) =
          w\<lparr>requests := requests w @ [map_index p service]\<rparr>"
    by (rule objectFromJSONURL_world)
  then show ?thesis
    by (cases "objectFromJSONURL env (decode_PingResponse env) (map_index p service) w")
       (auto simp: respbody_def split: sum.splits)
qed

section \<open>The status command\<close>

lemma status_loop_append:
  "status_loop env p pre w = (Return None, w1) \<Longrightarrow>
   status_loop env p (pre @ rest) w = status_loop env p rest w1"
  by (induction pre arbitrary: w) (auto split: prod.splits option.splits)

lemma status_loop_requests:
  "status_loop env p xs w = (Return None, w1) \<Longrightarrow>
   requests w1 = requests w @ map (map_index p) xs"
proof (induction xs arbitrary: w)
  case Nil
  then show ?case by simp
next
  case (Cons x xs)
  obtain e w' where r: "respbody env p x w = (e, w')" by (cases "respbody env p x w")
  with Cons.prems have e: "e = None" and l: "status_loop env p xs w' = (Return None, w1)"
    by (auto split: option.splits)
  have "requests w' = requests w @ [map_index p x]"
    using respbody_requests [of env p x w] r by simp
  with Cons.IH [OF l] show ?case by simp
qed

text \<open>
  C7. A ping answered with a status other than 200 is an error of \<open>respbody\<close>, with
  nothing printed (it is not read as a report with \<open>alive\<close> false). When the services
  to ping are \<open>pre\<close>, then \<open>service\<close>, then \<open>post\<close>, the pings of \<open>pre\<close> succeed and the
  ping of \<open>service\<close> is answered with a status other than 200, \<open>status\<close> panics with
  that error, and the requests it has issued are those of \<open>pre\<close> and of \<open>service\<close>: no
  service of \<open>post\<close> is pinged.
\<close>

theorem non_200_ping_is_error_and_stops_status:
  assumes svcs: "(if length args = 0 then g_validArgs g else args) = pre @ service # post"
    and pre: "status_loop env (g_pingURLs g) pre w = (Return None, w1)"
    and get: "http_Get env (map_index (g_pingURLs g) service) = Inr resp"
    and bad: "StatusCode resp \<noteq> 200"
  shows "fst (respbody env (g_pingURLs g) service w1) =
           Some (BadStatusCode (StatusCode resp) (map_index (g_pingURLs g) service))
       \<and> printed (snd (respbody env (g_pingURLs g) service w1)) = printed w1
       \<and> fst (status env g args w) =
           Panic (BadStatusCode (StatusCode resp) (map_index (g_pingURLs g) service))
       \<and> requests (snd (status env g args w)) =
           requests w @ map (map_index (g_pingURLs g)) (pre @ [service])
       \<and> printed (snd (status env g args w)) = printed w1"
proof -
  let ?p = "g_pingURLs g"
  have r: "respbody env ?p service w1 =
             (Some (BadStatusCode (StatusCode resp) (map_index ?p service)),
              w1\<lparr>requests := requests w1 @ [map_index ?p service]\<rparr>)"
    using get bad by (rule respbody_bad_status)
  have "status env g args w = status_loop env ?p (pre @ service # post) w"
    using svcs by (simp add: status_def)
  also have "\<dots> = status_loop env ?p (service # post) w1"
    using pre by (rule status_loop_append)
  also have "\<dots> = (Panic (BadStatusCode (StatusCode resp) (map_index ?p service)),
                    w1\<lparr>requests := requests w1 @ [map_index ?p service]\<rparr>)"
    using r by simp
  finally have s: "status env g args w =
      (Panic (BadStatusCode (StatusCode resp) (map_index ?p service)),
       w1\<lparr>requests := requests w1 @ [map_index ?p service]\<rparr>)" .
  have "requests w1 = requests w @ map (map_index ?p) pre"
    using pre by (rule status_loop_requests)
  with r s show ?thesis by simp
qed

theorem non_200_ping_is_error_and_stops_status_witness:
  "fst (status example_env example_globals [''queue'', ''index'', ''auth''] (start 0 Missing)) =
     Panic (BadStatusCode 500 ''https://index.taskcluster.net/ping'')
   \<and> requests (snd (status example_env example_globals [''queue'', ''index'', ''auth'']
                      (start 0 Missing))) =
       [''https://queue.taskcluster.net/ping'', ''https://index.taskcluster.net/ping'']
   \<and> printed (snd (status example_env example_globals [''queue'', ''index'', ''auth'']
                      (start 0 Missing))) =
       [Printf (''      queue'' @ [CHR 0x0A]), Colour Green (''      Alive'' @ [CHR 0x0A])]"
  using non_200_ping_is_error_and_stops_status [of "[''queue'', ''index'', ''auth'']"
      example_globals "[''queue'']" "''index''" "[''auth'']" example_env "start 0 Missing"
      "(start 0 Missing)\<lparr>requests := [''https://queue.taskcluster.net/ping''],
          printed := [Printf (''      queue'' @ [CHR 0x0A]),
                      Colour Green (''      Alive'' @ [CHR 0x0A])]\<rparr>"
      "\<lparr>StatusCode = 500, Body = [], Close = None\<rparr>"]
  by (simp add: example_env_def example_Get_def example_globals_def map_index_def ok_def
      manifestURL_def manifest2URL_def example_decode_PingResponse_def start_def
      respbody_def objectFromJSONURL_def)

section \<open>Validation of the arguments\<close>

lemma is_validArg_iff: "is_validArg arg vs = (arg \<in> set vs)"
  by (induction vs) auto

lemma validateArgs_unknown:
  "a \<in> set args \<Longrightarrow> a \<notin> set vs \<Longrightarrow> validateArgs vs args = Some InvalidArguments"
  by (induction args) (auto simp: is_validArg_iff)

lemma validateArgs_known:
  "set args \<subseteq> set vs \<Longrightarrow> validateArgs vs args = None"
  by (induction args) (auto simp: is_validArg_iff)

lemma NewPingURLs_fresh:
  assumes "files w pingURLsCachePath = Contents bytes"
    and "json_Unmarshal env bytes = (Some c, None)"
    and "\<not> Expired (clock w) c (Hour * 24)"
  shows "NewPingURLs env w = (Return (PingURLs c, None), w)"
  using assms by (simp add: NewPingURLs_def Exists_def ReadCachedURLsFile_def ReadFile_def)

text \<open>
  C6, as the code has it. When an argument is not among \<open>validArgs\<close>, the command
  (\<open>PreRunE\<close>, then \<open>RunE\<close>) returns the validation error and leaves the world as it
  is: it issues no request, so no service is pinged, not even a validly named one. A
  whole run of the program is \<open>init\<close> followed by the command, so its requests are
  those of \<open>init\<close>; when the cache file is there, decodes and is not expired, the whole
  run issues no request at all.
\<close>

theorem unknown_service_is_rejected_before_any_ping:
  assumes "a \<in> set args" and "a \<notin> set (g_validArgs g)"
  shows "execute env g args w = (Return (Some InvalidArguments), w)
       \<and> (init env w0 = (Return g, w) \<longrightarrow>
            run_status env args w0 = (Return (Some InvalidArguments), w))
       \<and> (init env w0 = (Return g, w) \<and> files w0 pingURLsCachePath = Contents bytes
            \<and> json_Unmarshal env bytes = (Some c, None) \<and> \<not> Expired (clock w0) c (Hour * 24) \<longrightarrow>
            w = w0 \<and> run_status env args w0 = (Return (Some InvalidArguments), w0))"
proof -
  have e: "execute env g args w = (Return (Some InvalidArguments), w)"
    using assms by (simp add: execute_def preRun_def validateArgs_unknown)
  have r: "run_status env args w0 = (Return (Some InvalidArguments), w)"
    if "init env w0 = (Return g, w)"
    using that e by (simp add: run_status_def)
  have f: "w = w0"
    if i: "init env w0 = (Return g, w)" and "files w0 pingURLsCachePath = Contents bytes"
      and "json_Unmarshal env bytes = (Some c, None)" and "\<not> Expired (clock w0) c (Hour * 24)"
  proof -
    have "NewPingURLs env w0 = (Return (PingURLs c, None), w0)"
      using that(2-4) by (rule NewPingURLs_fresh)
    with i show ?thesis by (simp add: init_def Let_def)
  qed
  from e r f show ?thesis by blast
qed

theorem unknown_service_is_rejected_before_any_ping_witness:
  "run_status example_env [''queue'', ''bogus-service'']
     (start (1000 + Hour) (Contents ''cache of queue'')) =
   (Return (Some InvalidArguments), start (1000 + Hour) (Contents ''cache of queue''))
   \<and> execute example_env
        \<lparr>g_pingURLs = example_pingURLs, g_validArgs = [''queue''], g_use = ''status [queue]''\<rparr>
        [''queue'', ''bogus-service''] (start (1000 + Hour) (Contents ''cache of queue'')) =
      (Return (Some InvalidArguments), start (1000 + Hour) (Contents ''cache of queue''))"
  using unknown_service_is_rejected_before_any_ping [of "''bogus-service''"
      "[''queue'', ''bogus-service'']"
      "\<lparr>g_pingURLs = example_pingURLs, g_validArgs = [''queue''], g_use = ''status [queue]''\<rparr>"
      example_env "start (1000 + Hour) (Contents ''cache of queue'')"
      "start (1000 + Hour) (Contents ''cache of queue'')" "''cache of queue''"
      "\<lparr>LastUpdated = 1000, PingURLs = example_pingURLs\<rparr>"]
  by (simp add: init_def NewPingURLs_def Exists_def ReadCachedURLsFile_def ReadFile_def
      start_def example_env_def example_Unmarshal_def Expired_def Since_def Hour_def
      maxDuration_def minDuration_def range_by_def List.map_filter_simps example_pingURLs_def)

text \<open>
  C6 as stated fails for a run that finds no cache file: \<open>init\<close> first fetches the
  manifest and the reference of queue, and only then is the unknown name rejected.
\<close>

theorem unknown_service_after_refresh_counterexample:
  "files (start 0 Missing) pingURLsCachePath = Missing
   \<and> ''bogus-service'' \<notin> dom example_pingURLs
   \<and> fst (run_status example_env [''bogus-service''] (start 0 Missing)) =
       Return (Some InvalidArguments)
   \<and> requests (snd (run_status example_env [''bogus-service''] (start 0 Missing))) =
       [manifestURL, ''https://queue.example.com/ref'']"
  by (simp add: run_status_def init_def NewPingURLs_def Exists_def RefreshCache_def
      ScrapePingURLs_def objectFromJSONURL_def PingURLs_Cache_def WriteFile_def
      start_def example_env_def example_Get_def example_decode_manifest_def
      example_decode_API_def example_manifest_def queue_API_def example_Hostname_def
      example_Marshal_def ok_def SplitN2_def range_by_def List.map_filter_simps
      example_pingURLs_def execute_def preRun_def manifestURL_def manifest2URL_def
      pingURLsCachePath_def)

section \<open>What a resolution does to the world\<close>

lemma scrape_apis_world:
  "\<exists>rs. snd (scrape_apis env us p w) = w\<lparr>requests := requests w @ rs\<rparr>"
proof (induction us arbitrary: p w)
  case Nil
  have "w = w\<lparr>requests := requests w @ []\<rparr>" by simp
  then show ?case by (metis scrape_apis.simps(1) snd_conv)
next
  case (Cons u us)
  obtain r w' where o: "objectFromJSONURL env (decode_API env) u w = (r, w')"
    by (cases "objectFromJSONURL env (decode_API env) u w")
  have w': "w' = w\<lparr>requests := requests w @ [u]\<rparr>"
    using objectFromJSONURL_world [of env "decode_API env" u w] o by simp
  show ?case
  proof (cases r)
    case (Inl err)
    with o w' show ?thesis by auto
  next
    case (Inr reference)
    obtain p' e where s: "scrape_entries env reference (Entries reference) p = (p', e)"
      by (cases "scrape_entries env reference (Entries reference) p")
    show ?thesis
    proof (cases e)
      case None
      from Cons.IH [of p' w'] obtain rs
        where "snd (scrape_apis env us p' w') = w'\<lparr>requests := requests w' @ rs\<rparr>" ..
      then have "snd (scrape_apis env (u # us) p w) = w\<lparr>requests := requests w @ (u # rs)\<rparr>"
        using o Inr s None w' by simp
      then show ?thesis ..
    next
      case (Some err)
      with o Inr s w' show ?thesis by auto
    qed
  qed
qed

lemma ScrapePingURLs_world:
  "\<exists>rs. snd (ScrapePingURLs env mu w) =
     w\<lparr>requests := requests w @ mu # rs,
       printed := printed w @ [Colour Yellow (''Scraping ping URLs from '' @ mu)]\<rparr>"
proof -
  let ?w0 = "w\<lparr>printed := printed w @ [Colour Yellow (''Scraping ping URLs from '' @ mu)]\<rparr>"
  obtain r w1 where o: "objectFromJSONURL env (decode_manifest env) mu ?w0 = (r, w1)"
    by (cases "objectFromJSONURL env (decode_manifest env) mu ?w0")
  have w1: "w1 = ?w0\<lparr>requests := requests ?w0 @ [mu]\<rparr>"
    using objectFromJSONURL_world [of env "decode_manifest env" mu ?w0] o by simp
  show ?thesis
  proof (cases r)
    case (Inl err)
    with o w1 have "snd (ScrapePingURLs env mu w) =
        w\<lparr>requests := requests w @ mu # [],
          printed := printed w @ [Colour Yellow (''Scraping ping URLs from '' @ mu)]\<rparr>"
      by (simp add: ScrapePingURLs_def)
    then show ?thesis ..
  next
    case (Inr allAPIs)
    obtain rs where "snd (scrape_apis env (map snd (range_map env allAPIs)) Map.empty w1) =
        w1\<lparr>requests := requests w1 @ rs\<rparr>"
      using scrape_apis_world by blast
    with o Inr w1 have "snd (ScrapePingURLs env mu w) =
        w\<lparr>requests := requests w @ mu # rs,
          printed := printed w @ [Colour Yellow (''Scraping ping URLs from '' @ mu)]\<rparr>"
      by (simp add: ScrapePingURLs_def)
    then show ?thesis ..
  qed
qed

lemma PingURLs_Cache_requests:
  "requests (snd (PingURLs_Cache env path p w)) = requests w"
  by (simp add: PingURLs_Cache_def WriteFile_def Let_def split: sum.splits option.splits)

lemma RefreshCache_requests:
  "\<exists>rs. requests (snd (RefreshCache env mu path w)) = requests w @ mu # rs"
proof -
  obtain m e w1 where s: "ScrapePingURLs env mu w = ((m, e), w1)"
    by (cases "ScrapePingURLs env mu w") auto
  obtain rs where "snd (ScrapePingURLs env mu w) =
     w\<lparr>requests := requests w @ mu # rs,
       printed := printed w @ [Colour Yellow (''Scraping ping URLs from '' @ mu)]\<rparr>"
    using ScrapePingURLs_world by blast
  with s have r1: "requests w1 = requests w @ mu # rs" by simp
  show ?thesis
  proof (cases e)
    case None
    obtain c e2 w2 where c: "PingURLs_Cache env path m w1 = ((c, e2), w2)"
      by (cases "PingURLs_Cache env path m w1") auto
    have "requests w2 = requests w1"
      using PingURLs_Cache_requests [of env path m w1] c by simp
    with s None c r1 show ?thesis by (simp add: RefreshCache_def)
  next
    case (Some err)
    with s r1 show ?thesis by (simp add: RefreshCache_def)
  qed
qed

section \<open>Getting or refreshing the ping URLs\<close>

lemma NewPingURLs_refresh:
  assumes "\<not> Exists w pingURLsCachePath
         \<or> (ReadCachedURLsFile env pingURLsCachePath w = (Some c, None)
            \<and> Expired (clock w) c (Hour * 24))"
  shows "NewPingURLs env w =
           (Return (fst (RefreshCache env manifestURL pingURLsCachePath w)),
            snd (RefreshCache env manifestURL pingURLsCachePath w))"
  using assms by (auto simp: NewPingURLs_def split: prod.splits)

lemma NewPingURLs_read_error:
  assumes "files w pingURLsCachePath = Unreadable err
         \<or> (files w pingURLsCachePath = Contents bytes \<and> json_Unmarshal env bytes = (c0, Some err))"
  shows "NewPingURLs env w = (Return (Map.empty, Some err), w)"
  using assms
  by (auto simp: NewPingURLs_def Exists_def ReadCachedURLsFile_def ReadFile_def
      split: option.splits)

lemma NewPingURLs_no_refresh:
  assumes "Exists w pingURLsCachePath"
    and "\<not> (\<exists>c. ReadCachedURLsFile env pingURLsCachePath w = (Some c, None)
              \<and> Expired (clock w) c (Hour * 24))"
  shows "snd (NewPingURLs env w) = w"
  using assms by (auto simp: NewPingURLs_def split: prod.splits option.splits)

text \<open>
  C5, as the code has it. A cache file that exists but cannot be read, or whose
  contents do not decode, makes \<open>NewPingURLs\<close> return that error with the world
  unchanged: there is no refresh and no request. \<open>NewPingURLs\<close> issues requests exactly
  when the cache file is absent or its decoded record is expired, and then it is
  \<open>RefreshCache\<close> that runs.
\<close>

theorem unreadable_cache_is_an_error_not_a_refresh:
  "(files w pingURLsCachePath = Unreadable err
      \<or> (files w pingURLsCachePath = Contents bytes \<and> json_Unmarshal env bytes = (c0, Some err))
    \<longrightarrow> NewPingURLs env w = (Return (Map.empty, Some err), w))
   \<and> ((requests (snd (NewPingURLs env w)) \<noteq> requests w) =
        (\<not> Exists w pingURLsCachePath
         \<or> (\<exists>c. ReadCachedURLsFile env pingURLsCachePath w = (Some c, None)
                \<and> Expired (clock w) c (Hour * 24))))
   \<and> (\<not> Exists w pingURLsCachePath
         \<or> (\<exists>c. ReadCachedURLsFile env pingURLsCachePath w = (Some c, None)
                \<and> Expired (clock w) c (Hour * 24))
       \<longrightarrow> NewPingURLs env w =
             (Return (fst (RefreshCache env manifestURL pingURLsCachePath w)),
              snd (RefreshCache env manifestURL pingURLsCachePath w)))"
proof -
  let ?stale = "\<not> Exists w pingURLsCachePath
         \<or> (\<exists>c. ReadCachedURLsFile env pingURLsCachePath w = (Some c, None)
                \<and> Expired (clock w) c (Hour * 24))"
  have a: "NewPingURLs env w = (Return (Map.empty, Some err), w)"
    if "files w pingURLsCachePath = Unreadable err
      \<or> (files w pingURLsCachePath = Contents bytes \<and> json_Unmarshal env bytes = (c0, Some err))"
    using that by (rule NewPingURLs_read_error)
  have c: "NewPingURLs env w =
             (Return (fst (RefreshCache env manifestURL pingURLsCachePath w)),
              snd (RefreshCache env manifestURL pingURLsCachePath w))" if ?stale
    using that NewPingURLs_refresh by blast
  have b1: "requests (snd (NewPingURLs env w)) \<noteq> requests w" if ?stale
  proof -
    obtain rs where "requests (snd (RefreshCache env manifestURL pingURLsCachePath w)) =
        requests w @ manifestURL # rs"
      using RefreshCache_requests by blast
    with c [OF that] show ?thesis by simp
  qed
  have b2: "requests (snd (NewPingURLs env w)) = requests w" if "\<not> ?stale"
    using that NewPingURLs_no_refresh [of w env] by simp
  from a b1 b2 c show ?thesis by blast
qed

theorem unreadable_cache_is_an_error_not_a_refresh_witness:
  "NewPingURLs example_env (start 0 (Contents ''not json'')) =
     (Return (Map.empty, Some DecodeError), start 0 (Contents ''not json''))
   \<and> requests (snd (NewPingURLs example_env (start 0 Missing))) \<noteq> requests (start 0 Missing)
   \<and> NewPingURLs example_env (start 0 Missing) =
       (Return (fst (RefreshCache example_env manifestURL pingURLsCachePath (start 0 Missing))),
        snd (RefreshCache example_env manifestURL pingURLsCachePath (start 0 Missing)))"
proof -
  have u: "json_Unmarshal example_env ''not json'' = (None, Some DecodeError)"
    by (simp add: example_env_def example_Unmarshal_def)
  have f: "files (start 0 (Contents ''not json'')) pingURLsCachePath = Contents ''not json''"
    by (simp add: start_def)
  have m: "\<not> Exists (start 0 Missing) pingURLsCachePath"
    by (simp add: start_def Exists_def)
  from unreadable_cache_is_an_error_not_a_refresh
         [of "start 0 (Contents ''not json'')" DecodeError "''not json''" example_env None] u f
  have 1: "NewPingURLs example_env (start 0 (Contents ''not json'')) =
     (Return (Map.empty, Some DecodeError), start 0 (Contents ''not json''))"
    by blast
  from unreadable_cache_is_an_error_not_a_refresh
         [of "start 0 Missing" DecodeError "[]" example_env None] m
  have 2: "requests (snd (NewPingURLs example_env (start 0 Missing))) \<noteq> requests (start 0 Missing)"
    and 3: "NewPingURLs example_env (start 0 Missing) =
       (Return (fst (RefreshCache example_env manifestURL pingURLsCachePath (start 0 Missing))),
        snd (RefreshCache example_env manifestURL pingURLsCachePath (start 0 Missing)))"
    by blast+
  from 1 2 3 show ?thesis by blast
qed

text \<open>
  C5 as stated fails: with a cache file that cannot be read, and with one that does
  not decode, \<open>NewPingURLs\<close> returns the error and has issued no request.
\<close>

theorem unreadable_cache_counterexample:
  "NewPingURLs example_env (start 0 (Unreadable ReadError)) =
     (Return (Map.empty, Some ReadError), start 0 (Unreadable ReadError))
   \<and> NewPingURLs example_env (start 0 (Contents ''not json'')) =
     (Return (Map.empty, Some DecodeError), start 0 (Contents ''not json''))
   \<and> requests (start 0 (Unreadable ReadError)) = []
   \<and> requests (start 0 (Contents ''not json'')) = []"
  by (simp add: NewPingURLs_def Exists_def ReadCachedURLsFile_def ReadFile_def start_def
      example_env_def example_Unmarshal_def)

lemma ScrapePingURLs_clock:
  "clock (snd (ScrapePingURLs env mu w)) = clock w"
proof -
  obtain rs where "snd (ScrapePingURLs env mu w) =
     w\<lparr>requests := requests w @ mu # rs,
       printed := printed w @ [Colour Yellow (''Scraping ping URLs from '' @ mu)]\<rparr>"
    using ScrapePingURLs_world by blast
  then show ?thesis by simp
qed

lemma PingURLs_Cache_fails:
  assumes "json_MarshalIndent env \<lparr>LastUpdated = clock w, PingURLs = m\<rparr> = Inl err
         \<or> (json_MarshalIndent env \<lparr>LastUpdated = clock w, PingURLs = m\<rparr> = Inr bytes
            \<and> write_error env path = Some err)"
  shows "fst (PingURLs_Cache env path m w) = (\<lparr>LastUpdated = clock w, PingURLs = m\<rparr>, Some err)
       \<and> files (snd (PingURLs_Cache env path m w)) = files w"
  using assms by (auto simp: PingURLs_Cache_def WriteFile_def Let_def)

text \<open>
  C10. When the resolution succeeds with the map \<open>m\<close> but the cache cannot be
  persisted (marshalling fails, or writing the file fails), \<open>RefreshCache\<close> returns
  \<open>m\<close> together with that error. When the cache file is absent or expired,
  \<open>NewPingURLs\<close> returns the same pair, \<open>init\<close> panics with the error, and so does every
  run of the program, whatever its arguments.
\<close>

theorem failed_persist_returns_map_and_error_and_aborts_startup:
  assumes scrape: "fst (ScrapePingURLs env mu w) = (m, None)"
    and persist: "json_MarshalIndent env \<lparr>LastUpdated = clock w, PingURLs = m\<rparr> = Inl err
         \<or> (json_MarshalIndent env \<lparr>LastUpdated = clock w, PingURLs = m\<rparr> = Inr bytes
            \<and> write_error env path = Some err)"
  shows "fst (RefreshCache env mu path w) = (m, Some err)
       \<and> (mu = manifestURL \<and> path = pingURLsCachePath
           \<and> (\<not> Exists w pingURLsCachePath
               \<or> (ReadCachedURLsFile env pingURLsCachePath w = (Some c, None)
                  \<and> Expired (clock w) c (Hour * 24)))
          \<longrightarrow> fst (NewPingURLs env w) = Return (m, Some err)
              \<and> fst (init env w) = Panic err
              \<and> fst (run_status env args w) = Panic err)"
proof -
  obtain w1 where s: "ScrapePingURLs env mu w = ((m, None), w1)"
    using scrape by (cases "ScrapePingURLs env mu w") auto
  have "clock w1 = clock w"
    using ScrapePingURLs_clock [of env mu w] s by simp
  with persist have "fst (PingURLs_Cache env path m w1) =
      (\<lparr>LastUpdated = clock w1, PingURLs = m\<rparr>, Some err)"
    using PingURLs_Cache_fails [of env w1 m err bytes path] by simp
  with s have r: "fst (RefreshCache env mu path w) = (m, Some err)"
    by (cases "PingURLs_Cache env path m w1") (auto simp: RefreshCache_def)
  have "fst (NewPingURLs env w) = Return (m, Some err)
      \<and> fst (init env w) = Panic err \<and> fst (run_status env args w) = Panic err"
    if "mu = manifestURL" and "path = pingURLsCachePath"
      and "\<not> Exists w pingURLsCachePath
               \<or> (ReadCachedURLsFile env pingURLsCachePath w = (Some c, None)
                  \<and> Expired (clock w) c (Hour * 24))"
  proof -
    have n: "NewPingURLs env w =
           (Return (fst (RefreshCache env manifestURL pingURLsCachePath w)),
            snd (RefreshCache env manifestURL pingURLsCachePath w))"
      using that(3) by (rule NewPingURLs_refresh)
    with r that(1,2) have n': "NewPingURLs env w =
        (Return (m, Some err), snd (RefreshCache env manifestURL pingURLsCachePath w))"
      by simp
    then have i: "init env w = (Panic err, snd (RefreshCache env manifestURL pingURLsCachePath w))"
      by (simp add: init_def)
    then have "fst (run_status env args w) = Panic err"
      by (simp add: run_status_def)
    with n' i show ?thesis by simp
  qed
  with r show ?thesis by blast
qed

theorem failed_persist_returns_map_and_error_and_aborts_startup_witness:
  "fst (RefreshCache (example_env\<lparr>write_error := \<lambda>path. Some WriteError\<rparr>) manifestURL
          pingURLsCachePath (start 0 Missing)) = (example_pingURLs, Some WriteError)
   \<and> fst (NewPingURLs (example_env\<lparr>write_error := \<lambda>path. Some WriteError\<rparr>) (start 0 Missing)) =
       Return (example_pingURLs, Some WriteError)
   \<and> fst (init (example_env\<lparr>write_error := \<lambda>path. Some WriteError\<rparr>) (start 0 Missing)) =
       Panic WriteError
   \<and> fst (run_status (example_env\<lparr>write_error := \<lambda>path. Some WriteError\<rparr>) [''queue'']
            (start 0 Missing)) = Panic WriteError"
proof -
  let ?env = "example_env\<lparr>write_error := \<lambda>path. Some WriteError\<rparr>"
  have s: "fst (ScrapePingURLs ?env manifestURL (start 0 Missing)) = (example_pingURLs, None)"
    by (simp add: ScrapePingURLs_def objectFromJSONURL_def start_def example_env_def
        example_Get_def example_decode_manifest_def example_decode_API_def
        example_manifest_def queue_API_def example_Hostname_def ok_def SplitN2_def
        range_by_def List.map_filter_simps example_pingURLs_def manifestURL_def
        manifest2URL_def)
  have p: "json_MarshalIndent ?env \<lparr>LastUpdated = clock (start 0 Missing),
              PingURLs = example_pingURLs\<rparr> = Inr ''cache of queue''
         \<and> write_error ?env pingURLsCachePath = Some WriteError"
    by (simp add: example_env_def example_Marshal_def example_pingURLs_def)
  have m: "\<not> Exists (start 0 Missing) pingURLsCachePath"
    by (simp add: start_def Exists_def)
  from failed_persist_returns_map_and_error_and_aborts_startup
         [of ?env manifestURL "start 0 Missing" example_pingURLs WriteError
             "''cache of queue''" pingURLsCachePath _ "[''queue'']"] s p m
  show ?thesis by blast
qed

section \<open>Resolving the ping URLs\<close>

lemma objectFromJSONURL_fst:
  "fst (objectFromJSONURL env dec u w) = fst (objectFromJSONURL env dec u w')"
  by (simp add: objectFromJSONURL_def Let_def split: sum.splits option.splits)

lemma scrape_apis_fst:
  "fst (scrape_apis env us p w) = fst (scrape_apis env us p w')"
proof (induction us arbitrary: p w w')
  case Nil
  show ?case by simp
next
  case (Cons u us)
  obtain r w1 where o: "objectFromJSONURL env (decode_API env) u w = (r, w1)"
    by (cases "objectFromJSONURL env (decode_API env) u w")
  obtain r' w1' where o': "objectFromJSONURL env (decode_API env) u w' = (r', w1')"
    by (cases "objectFromJSONURL env (decode_API env) u w'")
  have "r' = r"
    using objectFromJSONURL_fst [of env "decode_API env" u w w'] o o' by simp
  with o o' Cons.IH show ?case
    by (auto split: sum.splits prod.splits option.splits)
qed

lemma scrape_apis_append:
  "scrape_apis env pre p w = ((p', None), w') \<Longrightarrow>
   scrape_apis env (pre @ rest) p w = scrape_apis env rest p' w'"
  by (induction pre arbitrary: p w) (auto split: prod.splits sum.splits option.splits)

lemma scrape_apis_append_error:
  "scrape_apis env pre p w = ((p', Some e), w') \<Longrightarrow>
   scrape_apis env (pre @ rest) p w = ((p', Some e), w')"
  by (induction pre arbitrary: p w) (auto split: prod.splits sum.splits option.splits)

lemma scrape_entries_no_ping:
  "\<forall>entry \<in> set entries. Name entry \<noteq> ''ping'' \<Longrightarrow>
   scrape_entries env reference entries p = (p, None)"
  by (induction entries) auto

lemma scrape_entries_error:
  "scrape_entries env reference entries p = (p', Some e) \<Longrightarrow> p' = p"
  by (induction entries) (auto split: if_splits sum.splits)

lemma takeWhile_no_sep: "sep \<notin> set s \<Longrightarrow> takeWhile (\<lambda>c. c \<noteq> sep) s = s"
  by (induction s) auto

lemma SplitN2_first: "SplitN2 s sep ! 0 = takeWhile (\<lambda>c. c \<noteq> sep) s"
  by (cases "sep \<in> set s") (simp_all add: SplitN2_def takeWhile_no_sep)

lemma scrape_entries_ping:
  "find (\<lambda>entry. Name entry = ''ping'') entries = Some entry \<Longrightarrow>
   url_Hostname env (BaseURL reference) = Inr hostname \<Longrightarrow>
   scrape_entries env reference entries p =
     (p(takeWhile (\<lambda>c. c \<noteq> CHR ''.'') hostname \<mapsto> BaseURL reference @ Route entry), None)"
  by (induction entries) (auto simp: SplitN2_first)

lemma ScrapePingURLs_manifest_ok:
  assumes "http_Get env mu = Inr mresp" and "StatusCode mresp = 200"
    and "decode_manifest env (Body mresp) = Inr allAPIs" and "Close mresp = None"
  shows "fst (ScrapePingURLs env mu w) =
           fst (scrape_apis env (map snd (range_map env allAPIs)) Map.empty w)"
proof -
  let ?w0 = "w\<lparr>printed := printed w @ [Colour Yellow (''Scraping ping URLs from '' @ mu)]\<rparr>"
  have "objectFromJSONURL env (decode_manifest env) mu ?w0 =
          (Inr allAPIs, ?w0\<lparr>requests := requests ?w0 @ [mu]\<rparr>)"
    using assms by (rule objectFromJSONURL_ok)
  then have "fst (ScrapePingURLs env mu w) =
      fst (scrape_apis env (map snd (range_map env allAPIs)) Map.empty
             (?w0\<lparr>requests := requests ?w0 @ [mu]\<rparr>))"
    by (simp add: ScrapePingURLs_def)
  then show ?thesis
    using scrape_apis_fst by metis
qed

lemma scrape_apis_skip:
  assumes u: "\<And>p0 w0. fst (scrape_apis env [u] p0 w0) = (p0, None)"
  shows "fst (scrape_apis env (pre @ u # post) p w) = fst (scrape_apis env (pre @ post) p w)"
proof -
  obtain p' e w' where pre: "scrape_apis env pre p w = ((p', e), w')"
    by (cases "scrape_apis env pre p w") auto
  show ?thesis
  proof (cases e)
    case None
    obtain w'' where one: "scrape_apis env [u] p' w' = ((p', None), w'')"
      using u [of p' w'] by (cases "scrape_apis env [u] p' w'") auto
    have "scrape_apis env (pre @ u # post) p w = scrape_apis env ([u] @ post) p' w'"
      using pre None scrape_apis_append [of env pre p w p' w' "u # post"] by simp
    also have "\<dots> = scrape_apis env post p' w''"
      using one by (rule scrape_apis_append)
    finally have "fst (scrape_apis env (pre @ u # post) p w) = fst (scrape_apis env post p' w')"
      using scrape_apis_fst by metis
    moreover have "scrape_apis env (pre @ post) p w = scrape_apis env post p' w'"
      using pre None scrape_apis_append [of env pre p w p' w' post] by simp
    ultimately show ?thesis by simp
  next
    case (Some err)
    with pre show ?thesis by (simp add: scrape_apis_append_error)
  qed
qed

lemma scrape_apis_one:
  assumes "http_Get env u = Inr resp" and "StatusCode resp = 200"
    and "decode_API env (Body resp) = Inr reference" and "Close resp = None"
  shows "fst (scrape_apis env [u] p w) = scrape_entries env reference (Entries reference) p"
proof -
  have "objectFromJSONURL env (decode_API env) u w =
          (Inr reference, w\<lparr>requests := requests w @ [u]\<rparr>)"
    using assms by (rule objectFromJSONURL_ok)
  then show ?thesis
    by (cases "scrape_entries env reference (Entries reference) p")
       (auto split: option.splits)
qed

text \<open>
  C8. A service whose API description is fetched and decoded and has no entry named
  ping adds no key and raises no error: the loop step for it returns the map as it
  was, with no error, and the whole resolution returns the same map and error as the
  resolution of the remaining services of the manifest, in the same order.
\<close>

theorem service_without_ping_is_skipped_silently:
  assumes manifest: "http_Get env mu = Inr mresp" "StatusCode mresp = 200"
      "decode_manifest env (Body mresp) = Inr allAPIs" "Close mresp = None"
    and order: "range_map env allAPIs = pre @ (k, u) # post"
    and reference: "http_Get env u = Inr resp" "StatusCode resp = 200"
      "decode_API env (Body resp) = Inr reference" "Close resp = None"
    and no_ping: "\<forall>entry \<in> set (Entries reference). Name entry \<noteq> ''ping''"
  shows "fst (scrape_apis env [u] p w) = (p, None)
       \<and> fst (ScrapePingURLs env mu w) =
           fst (scrape_apis env (map snd (pre @ post)) Map.empty w)"
proof -
  have one: "fst (scrape_apis env [u] p0 w0) = (p0, None)" for p0 w0
    using scrape_apis_one [OF reference] scrape_entries_no_ping [OF no_ping] by simp
  have "fst (ScrapePingURLs env mu w) =
          fst (scrape_apis env (map snd pre @ u # map snd post) Map.empty w)"
    using ScrapePingURLs_manifest_ok [OF manifest] order by simp
  also have "\<dots> = fst (scrape_apis env (map snd pre @ map snd post) Map.empty w)"
    using one by (rule scrape_apis_skip)
  finally show ?thesis using one by simp
qed

lemma example_reference_auth:
  "http_Get example_env ''https://auth.example.com/ref'' =
     Inr \<lparr>StatusCode = 200, Body = ''auth reference'', Close = None\<rparr>
   \<and> decode_API example_env ''auth reference'' = Inr auth_API"
  by (simp add: example_env_def example_Get_def example_decode_API_def ok_def
      manifestURL_def manifest2URL_def)

lemma example_manifest2_fetch:
  "http_Get example_env manifest2URL =
     Inr \<lparr>StatusCode = 200, Body = ''manifest2'', Close = None\<rparr>
   \<and> decode_manifest example_env ''manifest2'' = Inr example_manifest2
   \<and> range_map example_env example_manifest2 =
       [(''queue'', ''https://queue.example.com/ref'')] @
       (''auth'', ''https://auth.example.com/ref'') #
       [(''index'', ''https://index.example.com/ref'')]"
  by (simp add: example_env_def example_Get_def example_decode_manifest_def ok_def
      manifestURL_def manifest2URL_def example_manifest2_def range_by_def
      List.map_filter_simps)

theorem service_without_ping_is_skipped_silently_witness:
  "fst (scrape_apis example_env [''https://auth.example.com/ref''] example_pingURLs
          (start 0 Missing)) = (example_pingURLs, None)
   \<and> fst (ScrapePingURLs example_env manifest2URL (start 0 Missing)) =
       fst (scrape_apis example_env
              [''https://queue.example.com/ref'', ''https://index.example.com/ref'']
              Map.empty (start 0 Missing))"
proof -
  have n: "\<forall>entry \<in> set (Entries auth_API). Name entry \<noteq> ''ping''"
    by (simp add: auth_API_def)
  from service_without_ping_is_skipped_silently
         [of example_env manifest2URL
             "\<lparr>StatusCode = 200, Body = ''manifest2'', Close = None\<rparr>" example_manifest2
             "[(''queue'', ''https://queue.example.com/ref'')]" "''auth''"
             "''https://auth.example.com/ref''" "[(''index'', ''https://index.example.com/ref'')]"
             "\<lparr>StatusCode = 200, Body = ''auth reference'', Close = None\<rparr>" auth_API
             example_pingURLs "start 0 Missing"]
       example_manifest2_fetch example_reference_auth n
  show ?thesis by simp
qed

text \<open>
  C3. When the API description fetched for a manifest entry has an entry named ping
  (the first one is \<open>entry\<close>) and its base URL parses with the host name \<open>hostname\<close>,
  the loop step maps the part of \<open>hostname\<close> before the first dot to the base URL
  followed by the route of \<open>entry\<close>. For a manifest with the single entry \<open>(k, u)\<close> the
  resolution returns exactly that one-key map with no error: the key \<open>k\<close> of the
  manifest is not in the result.
\<close>

theorem ping_entry_maps_host_prefix_to_base_url_and_route:
  assumes reference: "http_Get env u = Inr resp" "StatusCode resp = 200"
      "decode_API env (Body resp) = Inr reference" "Close resp = None"
    and ping: "find (\<lambda>entry. Name entry = ''ping'') (Entries reference) = Some entry"
    and host: "url_Hostname env (BaseURL reference) = Inr hostname"
  shows "fst (scrape_apis env [u] p w) =
           (p(takeWhile (\<lambda>c. c \<noteq> CHR ''.'') hostname \<mapsto> BaseURL reference @ Route entry), None)
       \<and> (http_Get env mu = Inr mresp \<and> StatusCode mresp = 200
           \<and> decode_manifest env (Body mresp) = Inr allAPIs \<and> Close mresp = None
           \<and> range_map env allAPIs = [(k, u)]
          \<longrightarrow> fst (ScrapePingURLs env mu w) =
               ([takeWhile (\<lambda>c. c \<noteq> CHR ''.'') hostname \<mapsto> BaseURL reference @ Route entry],
                None))"
proof -
  have one: "fst (scrape_apis env [u] p0 w0) =
      (p0(takeWhile (\<lambda>c. c \<noteq> CHR ''.'') hostname \<mapsto> BaseURL reference @ Route entry), None)"
    for p0 w0
    using scrape_apis_one [OF reference] scrape_entries_ping [OF ping host] by simp
  have "fst (ScrapePingURLs env mu w) =
          ([takeWhile (\<lambda>c. c \<noteq> CHR ''.'') hostname \<mapsto> BaseURL reference @ Route entry], None)"
    if "http_Get env mu = Inr mresp" and "StatusCode mresp = 200"
      and "decode_manifest env (Body mresp) = Inr allAPIs" and "Close mresp = None"
      and "range_map env allAPIs = [(k, u)]"
    using ScrapePingURLs_manifest_ok [OF that(1-4), of w] that(5) one [of Map.empty w]
    by simp
  with one show ?thesis by blast
qed

lemma example_manifest_fetch:
  "http_Get example_env manifestURL =
     Inr \<lparr>StatusCode = 200, Body = ''{\"queue\": \"https://queue.example.com/ref\"}'',
          Close = None\<rparr>
   \<and> decode_manifest example_env ''{\"queue\": \"https://queue.example.com/ref\"}'' =
       Inr example_manifest
   \<and> range_map example_env example_manifest = [(''queue'', ''https://queue.example.com/ref'')]"
  by (simp add: example_env_def example_Get_def example_decode_manifest_def ok_def
      example_manifest_def range_by_def List.map_filter_simps)

lemma example_reference_queue:
  "http_Get example_env ''https://queue.example.com/ref'' =
     Inr \<lparr>StatusCode = 200,
          Body = ''{\"baseUrl\":\"https://queue.taskcluster.net\",\"entries\":[{\"name\":\"ping\",\"route\":\"/ping\"}]}'',
          Close = None\<rparr>
   \<and> decode_API example_env
        ''{\"baseUrl\":\"https://queue.taskcluster.net\",\"entries\":[{\"name\":\"ping\",\"route\":\"/ping\"}]}'' =
       Inr queue_API
   \<and> find (\<lambda>entry. Name entry = ''ping'') (Entries queue_API) =
       Some \<lparr>Name = ''ping'', Route = ''/ping''\<rparr>
   \<and> url_Hostname example_env (BaseURL queue_API) = Inr ''queue.taskcluster.net''"
  by (simp add: example_env_def example_Get_def example_decode_API_def ok_def
      manifestURL_def manifest2URL_def queue_API_def example_Hostname_def)

theorem ping_entry_maps_host_prefix_to_base_url_and_route_witness:
  "fst (ScrapePingURLs example_env manifestURL (start 0 Missing)) =
     ([''queue'' \<mapsto> ''https://queue.taskcluster.net/ping''], None)
   \<and> fst (scrape_apis example_env [''https://queue.example.com/ref'']
            [''auth'' \<mapsto> ''https://auth.taskcluster.net/ping''] (start 0 Missing)) =
       ([''auth'' \<mapsto> ''https://auth.taskcluster.net/ping'',
         ''queue'' \<mapsto> ''https://queue.taskcluster.net/ping''], None)"
proof -
  note t = ping_entry_maps_host_prefix_to_base_url_and_route
         [of example_env "''https://queue.example.com/ref''"
             "\<lparr>StatusCode = 200,
               Body = ''{\"baseUrl\":\"https://queue.taskcluster.net\",\"entries\":[{\"name\":\"ping\",\"route\":\"/ping\"}]}'',
               Close = None\<rparr>"
             queue_API "\<lparr>Name = ''ping'', Route = ''/ping''\<rparr>" "''queue.taskcluster.net''"
             "[''auth'' \<mapsto> ''https://auth.taskcluster.net/ping'']" "start 0 Missing"
             manifestURL
             "\<lparr>StatusCode = 200, Body = ''{\"queue\": \"https://queue.example.com/ref\"}'',
               Close = None\<rparr>"
             example_manifest "''queue''"]
  have b: "BaseURL queue_API @ Route \<lparr>Name = ''ping'', Route = ''/ping''\<rparr> =
             ''https://queue.taskcluster.net/ping''"
    by (simp add: queue_API_def)
  have h: "takeWhile (\<lambda>c. c \<noteq> CHR ''.'') ''queue.taskcluster.net'' = ''queue''"
    by simp
  from t example_manifest_fetch example_reference_queue
  show ?thesis unfolding b h by simp
qed

section \<open>Failures during the resolution\<close>

lemma scrape_apis_fails:
  "u \<in> set us \<Longrightarrow> fst (objectFromJSONURL env (decode_API env) u w0) = Inl e0 \<Longrightarrow>
   \<exists>m e. fst (scrape_apis env us p w) = (m, Some e)"
proof (induction us arbitrary: p w)
  case Nil
  then show ?case by simp
next
  case (Cons a us)
  obtain r w1 where o: "objectFromJSONURL env (decode_API env) a w = (r, w1)"
    by (cases "objectFromJSONURL env (decode_API env) a w")
  show ?case
  proof (cases r)
    case (Inl err)
    with o show ?thesis by simp
  next
    case (Inr reference)
    have "a \<noteq> u"
    proof
      assume "a = u"
      then have "fst (objectFromJSONURL env (decode_API env) a w) = Inl e0"
        using Cons.prems(2) objectFromJSONURL_fst [of env "decode_API env" u w w0] by simp
      with o Inr show False by simp
    qed
    with Cons.prems(1) have u: "u \<in> set us" by simp
    obtain p' e where s: "scrape_entries env reference (Entries reference) p = (p', e)"
      by (cases "scrape_entries env reference (Entries reference) p")
    show ?thesis
    proof (cases e)
      case None
      with o Inr s Cons.IH [OF u Cons.prems(2), of p' w1] show ?thesis by simp
    next
      case (Some err)
      with o Inr s show ?thesis by simp
    qed
  qed
qed

lemma scrape_apis_error_prefix:
  "fst (scrape_apis env us p w) = (m, Some e) \<Longrightarrow>
   \<exists>pre u post. us = pre @ u # post \<and> fst (scrape_apis env pre p w) = (m, None)"
proof (induction us arbitrary: p w)
  case Nil
  then show ?case by simp
next
  case (Cons a us)
  obtain r w1 where o: "objectFromJSONURL env (decode_API env) a w = (r, w1)"
    by (cases "objectFromJSONURL env (decode_API env) a w")
  have stop: ?case if "m = p"
  proof -
    have "a # us = [] @ a # us \<and> fst (scrape_apis env [] p w) = (m, None)"
      using that by simp
    then show ?thesis by blast
  qed
  show ?case
  proof (cases r)
    case (Inl err)
    with o Cons.prems have "m = p" by simp
    then show ?thesis by (rule stop)
  next
    case (Inr reference)
    obtain p' e' where s: "scrape_entries env reference (Entries reference) p = (p', e')"
      by (cases "scrape_entries env reference (Entries reference) p")
    show ?thesis
    proof (cases e')
      case None
      with o Inr s Cons.prems have "fst (scrape_apis env us p' w1) = (m, Some e)" by simp
      from Cons.IH [OF this] obtain pre u post
        where us: "us = pre @ u # post" and pre: "fst (scrape_apis env pre p' w1) = (m, None)"
        by blast
      have "fst (scrape_apis env (a # pre) p w) = (m, None)"
        using o Inr s None pre by simp
      with us have "a # us = (a # pre) @ u # post \<and> fst (scrape_apis env (a # pre) p w) = (m, None)"
        by simp
      then show ?thesis by blast
    next
      case (Some err)
      with s have "p' = p" by (simp add: scrape_entries_error)
      with o Inr s Some Cons.prems have "m = p" by simp
      then show ?thesis by (rule stop)
    qed
  qed
qed

lemma RefreshCache_error:
  "fst (ScrapePingURLs env mu w) = (m, Some e) \<Longrightarrow>
   fst (RefreshCache env mu path w) = (m, Some e)
   \<and> files (snd (RefreshCache env mu path w)) = files w"
proof -
  assume a: "fst (ScrapePingURLs env mu w) = (m, Some e)"
  obtain rs where w: "snd (ScrapePingURLs env mu w) =
     w\<lparr>requests := requests w @ mu # rs,
       printed := printed w @ [Colour Yellow (''Scraping ping URLs from '' @ mu)]\<rparr>"
    using ScrapePingURLs_world by blast
  from a w show ?thesis
    by (cases "ScrapePingURLs env mu w") (auto simp: RefreshCache_def)
qed

lemma ScrapePingURLs_manifest_error:
  assumes "fst (objectFromJSONURL env (decode_manifest env) mu w0) = Inl e"
  shows "fst (ScrapePingURLs env mu w) = (Map.empty, Some e)"
proof -
  let ?w0 = "w\<lparr>printed := printed w @ [Colour Yellow (''Scraping ping URLs from '' @ mu)]\<rparr>"
  have "fst (objectFromJSONURL env (decode_manifest env) mu ?w0) = Inl e"
    using assms objectFromJSONURL_fst [of env "decode_manifest env" mu ?w0 w0] by simp
  then show ?thesis
    by (cases "objectFromJSONURL env (decode_manifest env) mu ?w0")
       (simp add: ScrapePingURLs_def)
qed

lemma ScrapePingURLs_manifest_decoded:
  assumes "fst (objectFromJSONURL env (decode_manifest env) mu w0) = Inr allAPIs"
  shows "fst (ScrapePingURLs env mu w) =
           fst (scrape_apis env (map snd (range_map env allAPIs)) Map.empty w)"
proof -
  let ?w0 = "w\<lparr>printed := printed w @ [Colour Yellow (''Scraping ping URLs from '' @ mu)]\<rparr>"
  have "fst (objectFromJSONURL env (decode_manifest env) mu ?w0) = Inr allAPIs"
    using assms objectFromJSONURL_fst [of env "decode_manifest env" mu ?w0 w0] by simp
  then obtain w1 where "objectFromJSONURL env (decode_manifest env) mu ?w0 = (Inr allAPIs, w1)"
    by (cases "objectFromJSONURL env (decode_manifest env) mu ?w0") simp
  then have "fst (ScrapePingURLs env mu w) =
      fst (scrape_apis env (map snd (range_map env allAPIs)) Map.empty w1)"
    by (simp add: ScrapePingURLs_def)
  then show ?thesis using scrape_apis_fst by metis
qed

text \<open>
  C2, as the code has it. When the fetch or decode of the manifest fails, or the
  manifest decodes and the fetch or decode of the API description of one of its
  entries fails, \<open>ScrapePingURLs\<close> returns an error, and \<open>RefreshCache\<close> returns the same
  pair without writing the cache file. The map returned next to the error is empty
  when the manifest failed; otherwise it is the map of a resolution, without error,
  of the API URLs that the range visited before the one where the loop stopped.
\<close>

theorem failed_fetch_aborts_resolution_and_nothing_is_cached:
  assumes "fst (objectFromJSONURL env (decode_manifest env) mu w0) = Inl e0
         \<or> (fst (objectFromJSONURL env (decode_manifest env) mu w0) = Inr allAPIs
            \<and> (k, u) \<in> set (range_map env allAPIs)
            \<and> fst (objectFromJSONURL env (decode_API env) u w0) = Inl e0)"
  shows "\<exists>m e. fst (ScrapePingURLs env mu w) = (m, Some e)
           \<and> fst (RefreshCache env mu path w) = (m, Some e)
           \<and> files (snd (RefreshCache env mu path w)) = files w
           \<and> (fst (objectFromJSONURL env (decode_manifest env) mu w0) = Inl e0 \<longrightarrow>
                m = Map.empty \<and> e = e0)
           \<and> (fst (objectFromJSONURL env (decode_manifest env) mu w0) = Inr allAPIs \<longrightarrow>
                (\<exists>pre v post. map snd (range_map env allAPIs) = pre @ v # post
                   \<and> fst (scrape_apis env pre Map.empty w) = (m, None)))"
  using assms
proof
  assume a: "fst (objectFromJSONURL env (decode_manifest env) mu w0) = Inl e0"
  then have s: "fst (ScrapePingURLs env mu w) = (Map.empty, Some e0)"
    by (rule ScrapePingURLs_manifest_error)
  from RefreshCache_error [OF s, of path] s a show ?thesis by simp
next
  assume a: "fst (objectFromJSONURL env (decode_manifest env) mu w0) = Inr allAPIs
            \<and> (k, u) \<in> set (range_map env allAPIs)
            \<and> fst (objectFromJSONURL env (decode_API env) u w0) = Inl e0"
  let ?us = "map snd (range_map env allAPIs)"
  from a have u: "u \<in> set ?us" by force
  have eq: "fst (ScrapePingURLs env mu w) = fst (scrape_apis env ?us Map.empty w)"
    using a ScrapePingURLs_manifest_decoded by blast
  obtain m e where me: "fst (scrape_apis env ?us Map.empty w) = (m, Some e)"
    using scrape_apis_fails [OF u, of env w0 e0 Map.empty w] a by blast
  from scrape_apis_error_prefix [OF me] obtain pre v post
    where p: "?us = pre @ v # post \<and> fst (scrape_apis env pre Map.empty w) = (m, None)"
    by blast
  have s: "fst (ScrapePingURLs env mu w) = (m, Some e)" using eq me by simp
  from RefreshCache_error [OF s, of path] s a p show ?thesis by auto
qed

lemma example_manifest2_run:
  "fst (ScrapePingURLs example_env manifest2URL (start 0 Missing)) =
     (example_pingURLs, Some (BadStatusCode 500 ''https://index.example.com/ref''))"
  by (simp add: ScrapePingURLs_def objectFromJSONURL_def start_def example_env_def
      example_Get_def example_decode_manifest_def example_decode_API_def
      example_manifest2_def queue_API_def auth_API_def example_Hostname_def ok_def
      SplitN2_def range_by_def List.map_filter_simps example_pingURLs_def manifestURL_def
      manifest2URL_def)

theorem failed_fetch_aborts_resolution_and_nothing_is_cached_witness:
  "fst (ScrapePingURLs example_env manifest2URL (start 0 Missing)) =
     (example_pingURLs, Some (BadStatusCode 500 ''https://index.example.com/ref''))
   \<and> fst (RefreshCache example_env manifest2URL pingURLsCachePath (start 0 Missing)) =
       (example_pingURLs, Some (BadStatusCode 500 ''https://index.example.com/ref''))
   \<and> files (snd (RefreshCache example_env manifest2URL pingURLsCachePath (start 0 Missing))) =
       files (start 0 Missing)"
proof -
  have h: "fst (objectFromJSONURL example_env (decode_manifest example_env) manifest2URL
                  (start 0 Missing)) = Inr example_manifest2
         \<and> (''index'', ''https://index.example.com/ref'') \<in>
             set (range_map example_env example_manifest2)
         \<and> fst (objectFromJSONURL example_env (decode_API example_env)
                  ''https://index.example.com/ref'' (start 0 Missing)) =
             Inl (BadStatusCode 500 ''https://index.example.com/ref'')"
    by (simp add: objectFromJSONURL_def example_env_def example_Get_def
        example_decode_manifest_def ok_def example_manifest2_def range_by_def
        List.map_filter_simps manifestURL_def manifest2URL_def)
  from failed_fetch_aborts_resolution_and_nothing_is_cached
         [of example_env manifest2URL "start 0 Missing"
             "BadStatusCode 500 ''https://index.example.com/ref''" example_manifest2
             "''index''" "''https://index.example.com/ref''" "start 0 Missing"
             pingURLsCachePath] h
  obtain m e where
    "fst (ScrapePingURLs example_env manifest2URL (start 0 Missing)) = (m, Some e)"
    "fst (RefreshCache example_env manifest2URL pingURLsCachePath (start 0 Missing)) = (m, Some e)"
    "files (snd (RefreshCache example_env manifest2URL pingURLsCachePath (start 0 Missing))) =
       files (start 0 Missing)"
    by blast
  with example_manifest2_run show ?thesis by simp
qed

text \<open>
  C2 as stated fails on the map: the range visits queue, auth, index; the reference
  of index answers 500; the error is returned together with the map that already
  holds the endpoint of queue.
\<close>

theorem partial_map_returned_with_error_counterexample:
  "fst (objectFromJSONURL example_env (decode_API example_env)
          ''https://index.example.com/ref'' (start 0 Missing)) =
     Inl (BadStatusCode 500 ''https://index.example.com/ref'')
   \<and> snd (fst (ScrapePingURLs example_env manifest2URL (start 0 Missing))) =
       Some (BadStatusCode 500 ''https://index.example.com/ref'')
   \<and> fst (fst (ScrapePingURLs example_env manifest2URL (start 0 Missing))) ''queue'' =
       Some ''https://queue.taskcluster.net/ping''"
  by (simp add: ScrapePingURLs_def objectFromJSONURL_def start_def example_env_def
      example_Get_def example_decode_manifest_def example_decode_API_def
      example_manifest2_def queue_API_def auth_API_def example_Hostname_def ok_def
      SplitN2_def range_by_def List.map_filter_simps manifestURL_def manifest2URL_def)

section \<open>The JSON codec of the cache file\<close>

lemma rune_len_cases: "rune_len b \<in> {0, 1, 2, 3, 4}"
  by (simp add: rune_len_def)

lemma rune_size_ascii: "(of_char c :: nat) < 0x80 \<Longrightarrow> rune_size (c # cs) = 1"
  by (simp add: rune_size_def rune_len_def)

lemma rune_size_le: "rune_size (c # cs) \<le> Suc (length cs)"
proof -
  let ?n = "rune_len (of_char c)"
  have "rune_size (c # cs) = 0 \<or> rune_size (c # cs) = ?n \<and> (?n \<le> 1 \<or> \<not> length cs < ?n - 1)"
    by (simp add: rune_size_def Let_def)
  then show ?thesis by auto
qed

lemma rune_size_prefix:
  assumes "rune_size (c # cs) = n" and "0 < n"
  shows "rune_size (c # take (n - 1) cs @ t) = n"
proof -
  have n: "n = rune_len (of_char c)"
    using assms by (auto simp: rune_size_def Let_def split: if_splits)
  have l: "n - 1 \<le> length cs"
    using rune_size_le [of c cs] assms by simp
  have nth: "(take (n - 1) cs @ t) ! i = cs ! i" if "i < n - 1" for i
    using that l by (simp add: nth_append)
  consider "n = 1" | "n = 2" | "n = 3" | "n = 4"
    using rune_len_cases [of "of_char c"] n assms(2) by auto
  then show ?thesis
  proof cases
    case 1
    with n show ?thesis by (simp add: rune_size_def)
  next
    case 2
    with n assms l nth [of 0] show ?thesis
      by (auto simp: rune_size_def Let_def split: if_splits)
  next
    case 3
    with n assms l nth [of 0] nth [of 1] show ?thesis
      by (auto simp: rune_size_def Let_def split: if_splits)
  next
    case 4
    with n assms l nth [of 0] nth [of 1] nth [of 2] show ?thesis
      by (auto simp: rune_size_def Let_def split: if_splits)
  qed
qed

lemma read_string_quote: "read_string (dq # cs) = Some ([], [], cs)"
  by simp

lemma read_string_plain:
  "0x20 \<le> (of_char c :: nat) \<Longrightarrow> (of_char c :: nat) < 0x80 \<Longrightarrow> c \<noteq> dq \<Longrightarrow> c \<noteq> bs \<Longrightarrow>
   read_string (c # cs) = more [c] [c] (read_string cs)"
  by simp

lemma read_string_unescape:
  "unescape e = Some d \<Longrightarrow> e \<noteq> CHR ''u'' \<Longrightarrow>
   read_string (bs # e # es) = more [bs, e] [d] (read_string es)"
  by (simp add: dq_def bs_def)

lemma read_string_u4:
  "u4 [a, b, c, d] = Some r \<Longrightarrow> \<not> (0xD800 \<le> r \<and> r < 0xE000) \<Longrightarrow>
   read_string (bs # CHR ''u'' # a # b # c # d # es) =
     more [bs, CHR ''u'', a, b, c, d] (encode_rune r) (read_string es)"
  by (auto simp: dq_def bs_def u4_def split: option.splits)

lemma read_string_rune:
  "0x80 \<le> (of_char c :: nat) \<Longrightarrow> rune_size (c # cs) = n \<Longrightarrow> 0 < n \<Longrightarrow>
   read_string (c # cs) =
     more (c # take (n - 1) cs) (c # take (n - 1) cs) (read_string (drop (n - 1) cs))"
  by (auto simp: dq_def bs_def)

declare read_string.simps [simp del]

lemma hexval_hex: "n < 16 \<Longrightarrow> hexval (hex n) = Some n"
proof -
  assume "n < 16"
  then have "n \<in> set [0..<16]" by simp
  also have "[0..<16] = [0, 1, 2, 3, 4, 5, 6, 7, 8, 9, 10, 11, 12, 13, 14, 15 :: nat]"
    by (simp add: upt_rec)
  finally show ?thesis
    by (auto simp: hex_def hexval_def)
qed

lemma more_Some: "more raw dec (Some (raw', dec', rest)) = Some (raw @ raw', dec @ dec', rest)"
  by (simp add: more_def)

lemma read_escape_ascii:
  assumes a: "(of_char c :: nat) < 0x80" and u: "\<not> html_safe c"
  shows "read_string (escape_ascii c @ t) = more (escape_ascii c) [c] (read_string t)"
proof -
  consider (q) "c = bs \<or> c = dq"
    | (ctl) "c \<noteq> bs" "c \<noteq> dq" "c \<in> {CHR 0x08, CHR 0x0C, CHR 0x0A, CHR 0x0D, CHR 0x09}"
    | (u) "c \<noteq> bs" "c \<noteq> dq" "c \<notin> {CHR 0x08, CHR 0x0C, CHR 0x0A, CHR 0x0D, CHR 0x09}"
    by blast
  then show ?thesis
  proof cases
    case q
    then have "unescape c = Some c" and "c \<noteq> CHR ''u''"
      by (auto simp: unescape_def bs_def dq_def)
    then have "read_string (bs # c # t) = more [bs, c] [c] (read_string t)"
      by (rule read_string_unescape)
    with q show ?thesis by (auto simp: escape_ascii_def)
  next
    case ctl
    then show ?thesis
      by (auto simp: escape_ascii_def bs_def dq_def unescape_def read_string_unescape [unfolded bs_def])
  next
    case u
    let ?b = "of_char c :: nat"
    have hi: "?b div 16 < 16" and lo: "?b mod 16 < 16" using a by auto
    have z: "hexval (CHR ''0'') = Some 0" by (simp add: hexval_def)
    have "u4 [CHR ''0'', CHR ''0'', hex (?b div 16), hex (?b mod 16)] = Some ?b"
      using hexval_hex [OF hi] hexval_hex [OF lo] z by (simp add: u4_def)
    moreover have "\<not> (0xD800 \<le> ?b \<and> ?b < 0xE000)" using a by simp
    ultimately have "read_string (bs # CHR ''u'' # CHR ''0'' # CHR ''0'' # hex (?b div 16) #
          hex (?b mod 16) # t) =
        more [bs, CHR ''u'', CHR ''0'', CHR ''0'', hex (?b div 16), hex (?b mod 16)]
          (encode_rune ?b) (read_string t)"
      by (rule read_string_u4)
    moreover have "encode_rune ?b = [c]" using a by (simp add: encode_rune_def)
    moreover have "escape_ascii c =
        [bs, CHR ''u'', CHR ''0'', CHR ''0'', hex (?b div 16), hex (?b mod 16)]"
      using u by (simp add: escape_ascii_def)
    ultimately show ?thesis by simp
  qed
qed

lemma char_of_bytes:
  "char_of (226 :: nat) = CHR 0xE2" "char_of (128 :: nat) = CHR 0x80"
  "char_of (168 :: nat) = CHR 0xA8" "char_of (169 :: nat) = CHR 0xA9"
  "char_of (239 :: nat) = CHR 0xEF" "char_of (191 :: nat) = CHR 0xBF"
  "char_of (189 :: nat) = CHR 0xBD"
  by code_simp+

lemma encode_rune_separators:
  "encode_rune 0x2028 = [CHR 0xE2, CHR 0x80, CHR 0xA8]"
  "encode_rune 0x2029 = [CHR 0xE2, CHR 0x80, CHR 0xA9]"
  "encode_rune 0xFFFD = replacement"
  by (simp_all add: encode_rune_def replacement_def char_of_bytes)

lemma read_line_separator:
  "d = CHR ''8'' \<or> d = CHR ''9'' \<Longrightarrow>
   read_string (bs # CHR ''u'' # CHR ''2'' # CHR ''0'' # CHR ''2'' # d # t) =
     more [bs, CHR ''u'', CHR ''2'', CHR ''0'', CHR ''2'', d]
       [CHR 0xE2, CHR 0x80, if d = CHR ''8'' then CHR 0xA8 else CHR 0xA9] (read_string t)"
proof -
  assume d: "d = CHR ''8'' \<or> d = CHR ''9''"
  let ?r = "if d = CHR ''8'' then 0x2028 else 0x2029 :: nat"
  have "u4 [CHR ''2'', CHR ''0'', CHR ''2'', d] = Some ?r"
    using d by (auto simp: u4_def hexval_def)
  moreover have "\<not> (0xD800 \<le> ?r \<and> ?r < 0xE000)" by simp
  ultimately have "read_string (bs # CHR ''u'' # CHR ''2'' # CHR ''0'' # CHR ''2'' # d # t) =
      more [bs, CHR ''u'', CHR ''2'', CHR ''0'', CHR ''2'', d] (encode_rune ?r) (read_string t)"
    by (rule read_string_u4)
  moreover have "encode_rune ?r = [CHR 0xE2, CHR 0x80, if d = CHR ''8'' then CHR 0xA8 else CHR 0xA9]"
    by (simp add: encode_rune_separators)
  ultimately show ?thesis by simp
qed

lemma escape_ascii_step:
  "(of_char c :: nat) < 0x80 \<Longrightarrow>
   escape (c # cs) = (if html_safe c then [c] else escape_ascii c) @ escape cs"
  by simp

lemma escape_rune_step:
  "0x80 \<le> (of_char c :: nat) \<Longrightarrow> 0 < rune_size (c # cs) \<Longrightarrow>
   take 3 (c # cs) \<noteq> [CHR 0xE2, CHR 0x80, CHR 0xA8] \<Longrightarrow>
   take 3 (c # cs) \<noteq> [CHR 0xE2, CHR 0x80, CHR 0xA9] \<Longrightarrow>
   escape (c # cs) =
     c # take (rune_size (c # cs) - 1) cs @ escape (drop (rune_size (c # cs) - 1) cs)"
  by auto

lemma escape_separator_step:
  "d = CHR 0xA8 \<or> d = CHR 0xA9 \<Longrightarrow>
   escape (CHR 0xE2 # CHR 0x80 # d # cs) =
     [bs, CHR ''u'', CHR ''2'', CHR ''0'', CHR ''2'', if d = CHR 0xA8 then CHR ''8'' else CHR ''9'']
       @ escape cs"
  by (auto simp: rune_size_def rune_len_def second_lo_def second_hi_def cont_def)

lemma rune_size_separator:
  "d = CHR 0xA8 \<or> d = CHR 0xA9 \<Longrightarrow> rune_size (CHR 0xE2 # CHR 0x80 # d # cs) = 3"
  by (auto simp: rune_size_def rune_len_def second_lo_def second_hi_def cont_def)

declare escape.simps(2) [simp del]

lemma escape_invalid_step:
  "0x80 \<le> (of_char c :: nat) \<Longrightarrow> rune_size (c # cs) = 0 \<Longrightarrow>
   escape (c # cs) = [bs, CHR ''u'', CHR ''f'', CHR ''f'', CHR ''f'', CHR ''d''] @ escape cs"
  by (simp add: escape.simps)

lemma read_replacement:
  "read_string (bs # CHR ''u'' # CHR ''f'' # CHR ''f'' # CHR ''f'' # CHR ''d'' # t) =
     more [bs, CHR ''u'', CHR ''f'', CHR ''f'', CHR ''f'', CHR ''d''] replacement (read_string t)"
proof -
  have "u4 [CHR ''f'', CHR ''f'', CHR ''f'', CHR ''d''] = Some 0xFFFD"
    by (simp add: u4_def hexval_def)
  moreover have "\<not> (0xD800 \<le> (0xFFFD :: nat) \<and> (0xFFFD :: nat) < 0xE000)" by simp
  ultimately have "read_string (bs # CHR ''u'' # CHR ''f'' # CHR ''f'' # CHR ''f'' # CHR ''d'' # t) =
      more [bs, CHR ''u'', CHR ''f'', CHR ''f'', CHR ''f'', CHR ''d''] (encode_rune 0xFFFD)
        (read_string t)"
    by (rule read_string_u4)
  then show ?thesis by (simp add: encode_rune_separators)
qed

text \<open>What is read back from the escape of a string is the string coerced to valid
  UTF-8.\<close>

lemma read_string_escape:
  "read_string (escape s @ dq # rest) = Some (escape s, coerce s, rest)"
proof (induction s rule: coerce.induct)
  case 1
  show ?case by (simp add: read_string_quote)
next
  case (2 c cs)
  let ?n = "rune_size (c # cs)"
  show ?case
  proof (cases "(of_char c :: nat) < 0x80")
    case True
    with "2.IH" have ih: "read_string (escape cs @ dq # rest) = Some (escape cs, coerce cs, rest)"
      by simp
    show ?thesis
    proof (cases "html_safe c")
      case safe: True
      then have "read_string (c # escape cs @ dq # rest) =
          more [c] [c] (read_string (escape cs @ dq # rest))"
        by (intro read_string_plain) (simp_all add: html_safe_def)
      with True safe ih show ?thesis by (simp add: escape_ascii_step more_Some)
    next
      case False
      with True ih read_escape_ascii [OF True False, of "escape cs @ dq # rest"]
      show ?thesis by (simp add: escape_ascii_step more_Some)
    qed
  next
    case False
    then have hi: "0x80 \<le> (of_char c :: nat)" by simp
    show ?thesis
    proof (cases "?n = 0")
      case True
      with "2.IH" False
      have ih: "read_string (escape cs @ dq # rest) = Some (escape cs, coerce cs, rest)"
        by simp
      have "escape (c # cs) = [bs, CHR ''u'', CHR ''f'', CHR ''f'', CHR ''f'', CHR ''d''] @ escape cs"
        using hi True by (rule escape_invalid_step)
      with ih False True read_replacement [of "escape cs @ dq # rest"]
      show ?thesis by (simp add: more_Some)
    next
      case nz: False
      then have n: "0 < ?n" by simp
      have IH: "read_string (escape (drop (?n - 1) cs) @ dq # rest) =
          Some (escape (drop (?n - 1) cs), coerce (drop (?n - 1) cs), rest)"
        using "2.IH"(3) False nz by simp
      have co: "coerce (c # cs) = c # take (?n - 1) cs @ coerce (drop (?n - 1) cs)"
        using False nz by simp
      consider (sep) d where "d = CHR 0xA8 \<or> d = CHR 0xA9" "take 3 (c # cs) = [CHR 0xE2, CHR 0x80, d]"
        | (other) "take 3 (c # cs) \<noteq> [CHR 0xE2, CHR 0x80, CHR 0xA8]"
            "take 3 (c # cs) \<noteq> [CHR 0xE2, CHR 0x80, CHR 0xA9]"
        by blast
      then show ?thesis
      proof cases
        case sep
        from sep(2) obtain t where cs: "c # cs = CHR 0xE2 # CHR 0x80 # d # t"
          by (cases cs; cases "tl cs") (auto split: if_splits)
        then have c: "c = CHR 0xE2" and cs': "cs = CHR 0x80 # d # t" by simp_all
        have n3: "?n = 3" unfolding cs using sep(1) by (rule rune_size_separator)
        with IH cs' have ih: "read_string (escape t @ dq # rest) = Some (escape t, coerce t, rest)"
          by simp
        have e: "escape (c # cs) =
            [bs, CHR ''u'', CHR ''2'', CHR ''0'', CHR ''2'', if d = CHR 0xA8 then CHR ''8'' else CHR ''9'']
              @ escape t"
          unfolding cs using sep(1) by (rule escape_separator_step)
        let ?h = "if d = CHR 0xA8 then CHR ''8'' else CHR ''9''"
        have h: "?h = CHR ''8'' \<or> ?h = CHR ''9''" by simp
        have hd: "(if ?h = CHR ''8'' then CHR 0xA8 else CHR 0xA9) = d" using sep(1) by auto
        from read_line_separator [OF h, of "escape t @ dq # rest"] ih hd
        have "read_string ([bs, CHR ''u'', CHR ''2'', CHR ''0'', CHR ''2'', ?h] @ escape t @ dq # rest) =
            Some ([bs, CHR ''u'', CHR ''2'', CHR ''0'', CHR ''2'', ?h] @ escape t,
                  [CHR 0xE2, CHR 0x80, d] @ coerce t, rest)"
          by (simp add: more_Some)
        moreover have "coerce (c # cs) = [CHR 0xE2, CHR 0x80, d] @ coerce t"
          using co n3 cs' c by simp
        ultimately show ?thesis using e by simp
      next
        case other
        have e: "escape (c # cs) = c # take (?n - 1) cs @ escape (drop (?n - 1) cs)"
          using hi n other by (rule escape_rune_step)
        have l: "?n - 1 \<le> length cs" using rune_size_le [of c cs] by simp
        let ?t = "escape (drop (?n - 1) cs) @ dq # rest"
        have "rune_size (c # take (?n - 1) cs @ ?t) = ?n"
          using n by (intro rune_size_prefix) simp_all
        from read_string_rune [OF hi this n]
        have "read_string (c # take (?n - 1) cs @ ?t) =
            more (c # take (?n - 1) cs) (c # take (?n - 1) cs) (read_string ?t)"
          using l by simp
        with IH e co show ?thesis by (simp add: more_Some)
      qed
    qed
  qed
qed

lemma coerce_valid: "valid_utf8 s \<Longrightarrow> coerce s = s"
proof (induction s rule: valid_utf8.induct)
  case 1
  show ?case by simp
next
  case (2 c cs)
  then show ?case by (auto simp: rune_size_ascii)
qed

lemma valid_utf8_ascii: "\<forall>c \<in> set s. (of_char c :: nat) < 0x80 \<Longrightarrow> valid_utf8 s"
  by (induction s) (simp_all add: rune_size_ascii)

lemma expect_here: "\<not> is_space c \<Longrightarrow> expect c (c # rest) = Some rest"
  by (simp add: expect_def)

lemma expect_skip: "is_space x \<Longrightarrow> expect c (x # s) = expect c s"
  by (simp add: expect_def)

lemma expect_other: "\<not> is_space x \<Longrightarrow> x \<noteq> c \<Longrightarrow> expect c (x # s) = None"
  by (simp add: expect_def)

lemma spaces [simp]:
  "is_space (CHR '' '')" "is_space nl" "\<not> is_space dq" "\<not> is_space (CHR '':'')"
  "\<not> is_space (CHR '','')" "\<not> is_space (CHR ''{'')" "\<not> is_space (CHR ''}'')"
  by (simp_all add: is_space_def nl_def dq_def)

lemma read_literal_here: "read_literal (dq # s) = read_string s"
  by (simp add: read_literal_def expect_here)

lemma read_literal_skip: "is_space x \<Longrightarrow> read_literal (x # s) = read_literal s"
  by (simp add: read_literal_def expect_skip)

lemma read_literal_write:
  "read_literal (write_literal s @ rest) = Some (escape s, coerce s, rest)"
  by (simp add: write_literal_def read_literal_here read_string_escape)

lemma read_string_text:
  "\<forall>c \<in> set tx. html_safe c \<Longrightarrow> read_string (tx @ dq # rest) = Some (tx, tx, rest)"
proof (induction tx)
  case Nil
  show ?case by (simp add: read_string_quote)
next
  case (Cons c tx)
  then have "html_safe c" by simp
  then have "read_string (c # tx @ dq # rest) = more [c] [c] (read_string (tx @ dq # rest))"
    by (intro read_string_plain) (simp_all add: html_safe_def)
  with Cons show ?case by (simp add: more_Some)
qed

lemma read_member:
  "read_literal (write_member kv @ t) =
     Some (escape (fst kv), coerce (fst kv), CHR '':'' # CHR '' '' # write_literal (snd kv) @ t)"
  "read_literal (CHR '' '' # write_literal (snd kv) @ t) =
     Some (escape (snd kv), coerce (snd kv), t)"
  by (simp_all add: write_member_def read_literal_skip read_literal_write)

lemma read_pairs_write:
  "kvs \<noteq> [] \<Longrightarrow> length kvs \<le> n \<Longrightarrow>
   read_pairs n (write_members kvs @ nl # ''  }'' @ rest) = Some (map coerce_pair kvs, rest)"
proof (induction kvs arbitrary: n)
  case Nil
  then show ?case by simp
next
  case (Cons kv kvs)
  from Cons.prems obtain n' where n: "n = Suc n'" and n': "length kvs \<le> n'"
    by (cases n) auto
  have step: "read_pairs (Suc n') (write_member kv @ t) =
      (case dropWhile is_space t of
         [] \<Rightarrow> None
       | c # s4 \<Rightarrow>
           if c = CHR '',''
           then map_option (\<lambda>(kvs, r). ((coerce (fst kv), coerce (snd kv)) # kvs, r))
                  (read_pairs n' s4)
           else if c = CHR ''}'' then Some ([(coerce (fst kv), coerce (snd kv))], s4)
           else None)" for t
    by (simp add: read_member expect_here)
  show ?case
  proof (cases kvs)
    case Nil
    have "dropWhile is_space (nl # ''  }'' @ rest) = CHR ''}'' # rest" by simp
    with Nil n step [of "nl # ''  }'' @ rest"] show ?thesis by (simp add: coerce_pair_def)
  next
    case (Cons kv' kvs')
    have "read_pairs n' (write_members kvs @ nl # ''  }'' @ rest) = Some (map coerce_pair kvs, rest)"
      using Cons.IH [of n'] n' Cons by simp
    moreover have "write_members (kv # kvs) = write_member kv @ '','' @ write_members kvs"
      using Cons by simp
    ultimately show ?thesis
      using n step [of "'','' @ write_members kvs @ nl # ''  }'' @ rest"]
      by (simp add: coerce_pair_def)
  qed
qed

lemma length_write_members: "length kvs \<le> length (write_members kvs)"
  by (induction kvs rule: write_members.induct) (simp_all add: write_member_def)

lemma expect_close_members:
  "kvs \<noteq> [] \<Longrightarrow> expect (CHR ''}'') (write_members kvs @ t) = None"
proof (cases kvs)
  case Nil
  assume "kvs \<noteq> []"
  with Nil show ?thesis by simp
next
  case (Cons kv kvs')
  have "write_members kvs @ t =
      nl # ''    '' @ dq # (escape (fst kv) @ dq # '': '' @ write_literal (snd kv)
        @ (if kvs' = [] then [] else '','' @ write_members kvs') @ t)"
    using Cons by (cases kvs') (simp_all add: write_member_def write_literal_def)
  moreover have "dq \<noteq> CHR ''}''" by (simp add: dq_def)
  ultimately show ?thesis
    by (simp add: expect_skip expect_other)
qed

lemma read_map_write:
  assumes "finite (dom m)"
  shows "read_map (write_map m @ rest) = Some (map coerce_pair (sorted_pairs m), rest)"
proof (cases "dom m = {}")
  case True
  then have "sorted_pairs m = []" by (simp add: sorted_pairs_def)
  with True show ?thesis
    by (simp add: read_map_def write_map_def expect_here)
next
  case False
  let ?ps = "sorted_pairs m"
  let ?s1 = "write_members ?ps @ nl # ''  }'' @ rest"
  have ks: "set (sorted_list_of_set (dom m)) = dom m" using assms(1) by simp
  have ne: "?ps \<noteq> []"
  proof
    assume "?ps = []"
    then have "set (sorted_list_of_set (dom m)) = {}" by (simp add: sorted_pairs_def)
    with ks have "dom m = {}" by (simp only:)
    with False show False ..
  qed
  have "length ?ps \<le> length ?s1" using length_write_members [of ?ps] by simp
  then have pairs: "read_pairs (length ?s1) ?s1 = Some (map coerce_pair ?ps, rest)"
    using read_pairs_write [OF ne] by blast
  have close: "expect (CHR ''}'') ?s1 = None" using ne by (rule expect_close_members)
  have "write_map m @ rest = CHR ''{'' # ?s1" using False by (simp add: write_map_def)
  then show ?thesis
    using pairs close by (simp add: read_map_def expect_here)
qed

lemma foldl_updates:
  "foldl (\<lambda>m kv. m(fst kv \<mapsto> snd kv)) acc (map (\<lambda>k. (k, f k)) ks) =
     (\<lambda>x. if x \<in> set ks then Some (f x) else acc x)"
  by (induction ks arbitrary: acc) (auto simp: fun_eq_iff)

lemma foldl_sorted_pairs:
  assumes "finite (dom m)"
  shows "foldl (\<lambda>acc kv. acc(fst kv \<mapsto> snd kv)) Map.empty (sorted_pairs m) = m"
proof -
  have "set (sorted_list_of_set (dom m)) = dom m" using assms by simp
  then show ?thesis
    by (auto simp: sorted_pairs_def foldl_updates fun_eq_iff map_index_def domIff
        split: option.splits)
qed

lemma coerce_pairs_valid:
  assumes "finite (dom m)" and "\<forall>k v. m k = Some v \<longrightarrow> valid_utf8 k \<and> valid_utf8 v"
  shows "map coerce_pair (sorted_pairs m) = sorted_pairs m"
proof -
  have "set (sorted_list_of_set (dom m)) = dom m" using assms(1) by simp
  then have "coerce_pair kv = kv" if "kv \<in> set (sorted_pairs m)" for kv
    using that assms(2) by (auto simp: sorted_pairs_def coerce_pair_def map_index_def coerce_valid)
  then show ?thesis by (simp add: map_idI)
qed

lemma rfc3339_char_safe: "c \<in> set ''0123456789-:.+TZ'' \<Longrightarrow> html_safe c"
  by (auto simp: html_safe_def dq_def bs_def)

lemma read_literal_text:
  "\<forall>c \<in> set tx. html_safe c \<Longrightarrow> read_literal (dq # tx @ dq # rest) = Some (tx, tx, rest)"
  by (simp add: read_literal_here read_string_text)

lemma read_map_skip: "is_space x \<Longrightarrow> read_map (x # s) = read_map s"
  by (simp add: read_map_def)

lemma read_document_write:
  assumes chars: "\<forall>c \<in> set tx. html_safe c"
    and fin: "finite (dom m)"
  shows "read_document
           (CHR ''{'' # nl # CHR '' '' # CHR '' '' # dq # ''lastUpdated'' @ dq # CHR '':'' #
            CHR '' '' # dq # tx @ dq # CHR '','' # nl # CHR '' '' # CHR '' '' # dq #
            ''pingURLs'' @ dq # CHR '':'' # CHR '' '' # write_map m @ nl # ''}'') =
         Some (tx, map coerce_pair (sorted_pairs m))"
proof -
  let ?s8 = "nl # ''}''"
  let ?s7 = "CHR '' '' # write_map m @ ?s8"
  let ?s6 = "CHR '':'' # ?s7"
  let ?s5 = "nl # CHR '' '' # CHR '' '' # dq # ''pingURLs'' @ dq # ?s6"
  let ?s4 = "CHR '','' # ?s5"
  let ?s3 = "CHR '' '' # dq # tx @ dq # ?s4"
  let ?s2 = "CHR '':'' # ?s3"
  let ?s1 = "nl # CHR '' '' # CHR '' '' # dq # ''lastUpdated'' @ dq # ?s2"
  have names: "\<forall>c \<in> set ''lastUpdated''. html_safe c" "\<forall>c \<in> set ''pingURLs''. html_safe c"
    by (simp_all add: html_safe_def dq_def bs_def)
  have f1: "expect (CHR ''{'') (CHR ''{'' # ?s1) = Some ?s1" by (simp add: expect_here)
  have f2: "read_literal ?s1 = Some (''lastUpdated'', ''lastUpdated'', ?s2)"
    using read_literal_text [OF names(1), of ?s2] by (simp add: read_literal_skip)
  have f3: "expect (CHR '':'') ?s2 = Some ?s3" by (simp add: expect_here)
  have f4: "read_literal ?s3 = Some (tx, tx, ?s4)"
    using read_literal_text [OF chars, of ?s4] by (simp add: read_literal_skip)
  have f5: "expect (CHR '','') ?s4 = Some ?s5" by (simp add: expect_here)
  have f6: "read_literal ?s5 = Some (''pingURLs'', ''pingURLs'', ?s6)"
    using read_literal_text [OF names(2), of ?s6] by (simp add: read_literal_skip)
  have f7: "expect (CHR '':'') ?s6 = Some ?s7" by (simp add: expect_here)
  have f8: "read_map ?s7 = Some (map coerce_pair (sorted_pairs m), ?s8)"
    using read_map_write [OF fin, of ?s8] by (simp add: read_map_skip)
  have f9: "expect (CHR ''}'') ?s8 = Some []" by (simp add: expect_skip expect_here)
  show ?thesis
    unfolding read_document_def
    by (simp only: f1 f2 f3 f4 f5 f6 f7 f8 f9 option.case prod.case simp_thms if_False
        if_True dropWhile.simps)
qed

text \<open>The document written for a record is decoded to the record of the time that
  the time package parses and of the map with every key and value coerced to valid
  UTF-8.\<close>

lemma Marshal_then_Unmarshal:
  assumes format: "time_Format t = Inr tx"
    and chars: "\<forall>c \<in> set tx. c \<in> set ''0123456789-:.+TZ''"
    and parse: "time_Parse tx = Inr t'"
    and fin: "finite (dom m)"
  shows "\<exists>bytes. MarshalIndent_CachedURLs time_Format \<lparr>LastUpdated = t, PingURLs = m\<rparr> = Inr bytes
           \<and> Unmarshal_CachedURLs time_Parse other bytes =
               (Some \<lparr>LastUpdated = t',
                      PingURLs = foldl (\<lambda>acc kv. acc(fst kv \<mapsto> snd kv)) Map.empty
                                   (map coerce_pair (sorted_pairs m))\<rparr>, None)"
proof -
  have safe: "\<forall>c \<in> set tx. html_safe c" using chars rfc3339_char_safe by blast
  let ?bytes = "CHR ''{'' # nl # CHR '' '' # CHR '' '' # dq # ''lastUpdated'' @ dq # CHR '':'' #
            CHR '' '' # dq # tx @ dq # CHR '','' # nl # CHR '' '' # CHR '' '' # dq #
            ''pingURLs'' @ dq # CHR '':'' # CHR '' '' # write_map m @ nl # ''}''"
  have "MarshalIndent_CachedURLs time_Format \<lparr>LastUpdated = t, PingURLs = m\<rparr> = Inr ?bytes"
    using format by (simp add: MarshalIndent_CachedURLs_def)
  moreover have "Unmarshal_CachedURLs time_Parse other ?bytes =
      (Some \<lparr>LastUpdated = t',
             PingURLs = foldl (\<lambda>acc kv. acc(fst kv \<mapsto> snd kv)) Map.empty
                          (map coerce_pair (sorted_pairs m))\<rparr>, None)"
    unfolding Unmarshal_CachedURLs_def read_document_write [OF safe fin]
    using parse by simp
  ultimately show ?thesis by blast
qed

section \<open>Persisting and loading the cache file\<close>

lemma PingURLs_Cache_ok:
  assumes "json_MarshalIndent env \<lparr>LastUpdated = clock w, PingURLs = m\<rparr> = Inr bytes"
    and "write_error env path = None"
  shows "PingURLs_Cache env path m w =
           ((\<lparr>LastUpdated = clock w, PingURLs = m\<rparr>, None),
            w\<lparr>printed := printed w @
                  [Colour Magenta (''Writing cache file '' @ cache_file_name env path)],
              files := (files w)(path := Contents bytes)\<rparr>)"
  using assms by (simp add: PingURLs_Cache_def WriteFile_def Let_def)

lemma Cache_then_Read:
  assumes codec: "json_MarshalIndent env = MarshalIndent_CachedURLs time_Format"
      "json_Unmarshal env = Unmarshal_CachedURLs time_Parse other"
    and time: "time_Format (clock w) = Inr tx" "\<forall>c \<in> set tx. c \<in> set ''0123456789-:.+TZ''"
      "time_Parse tx = Inr t'"
    and written: "write_error env path = None"
    and fin: "finite (dom m)"
  shows "fst (PingURLs_Cache env path m w) = (\<lparr>LastUpdated = clock w, PingURLs = m\<rparr>, None)
       \<and> ReadCachedURLsFile env path (snd (PingURLs_Cache env path m w)) =
           (Some \<lparr>LastUpdated = t',
                  PingURLs = foldl (\<lambda>acc kv. acc(fst kv \<mapsto> snd kv)) Map.empty
                               (map coerce_pair (sorted_pairs m))\<rparr>, None)"
proof -
  from Marshal_then_Unmarshal [of time_Format "clock w" tx time_Parse t' m other] time fin
  obtain bytes
    where m: "MarshalIndent_CachedURLs time_Format \<lparr>LastUpdated = clock w, PingURLs = m\<rparr> = Inr bytes"
      and u: "Unmarshal_CachedURLs time_Parse other bytes =
               (Some \<lparr>LastUpdated = t',
                      PingURLs = foldl (\<lambda>acc kv. acc(fst kv \<mapsto> snd kv)) Map.empty
                                   (map coerce_pair (sorted_pairs m))\<rparr>, None)"
    by blast
  have "json_MarshalIndent env \<lparr>LastUpdated = clock w, PingURLs = m\<rparr> = Inr bytes"
    using m codec(1) by simp
  from PingURLs_Cache_ok [OF this written] u codec(2) show ?thesis
    by (simp add: ReadCachedURLsFile_def ReadFile_def)
qed

text \<open>
  C4, as the code and the JSON package have it. \<open>json.MarshalIndent\<close> and
  \<open>json.Unmarshal\<close> are the model above, the time package formats the clock as an
  RFC 3339 text that it parses again, and the file is written. Then for every map
  \<open>m\<close> (with finitely many keys, as every Go map has) and every path,
  \<open>PingURLs.Cache\<close> succeeds and \<open>ReadCachedURLsFile\<close> returns the map
  \<open>m\<close> with every key and URL coerced to valid UTF-8; when all keys and URLs of \<open>m\<close>
  are valid UTF-8 the map loaded is \<open>m\<close> itself.
\<close>

theorem cache_then_read_returns_the_same_valid_utf8_map:
  assumes codec: "json_MarshalIndent env = MarshalIndent_CachedURLs time_Format"
      "json_Unmarshal env = Unmarshal_CachedURLs time_Parse other"
    and time: "time_Format (clock w) = Inr tx" "\<forall>c \<in> set tx. c \<in> set ''0123456789-:.+TZ''"
      "time_Parse tx = Inr t'"
    and written: "write_error env path = None"
    and fin: "finite (dom m)"
  shows "fst (PingURLs_Cache env path m w) = (\<lparr>LastUpdated = clock w, PingURLs = m\<rparr>, None)
       \<and> ReadCachedURLsFile env path (snd (PingURLs_Cache env path m w)) =
           (Some \<lparr>LastUpdated = t',
                  PingURLs = foldl (\<lambda>acc kv. acc(fst kv \<mapsto> snd kv)) Map.empty
                               (map coerce_pair (sorted_pairs m))\<rparr>, None)
       \<and> ((\<forall>k v. m k = Some v \<longrightarrow> valid_utf8 k \<and> valid_utf8 v) \<longrightarrow>
            ReadCachedURLsFile env path (snd (PingURLs_Cache env path m w)) =
              (Some \<lparr>LastUpdated = t', PingURLs = m\<rparr>, None))"
proof -
  note r = Cache_then_Read [OF codec time written fin]
  have "foldl (\<lambda>acc kv. acc(fst kv \<mapsto> snd kv)) Map.empty (map coerce_pair (sorted_pairs m)) = m"
    if "\<forall>k v. m k = Some v \<longrightarrow> valid_utf8 k \<and> valid_utf8 v"
    using coerce_pairs_valid [OF fin that] foldl_sorted_pairs [OF fin] by simp
  with r show ?thesis by simp
qed

lemma json_env_fields:
  "json_MarshalIndent json_env = MarshalIndent_CachedURLs example_time_Format"
  "json_Unmarshal json_env =
     Unmarshal_CachedURLs example_time_Parse (\<lambda>bytes. (None, Some DecodeError))"
  "write_error json_env pingURLsCachePath = None"
  by (simp_all add: json_env_def example_env_def)

lemma example_time:
  "example_time_Format (clock (start 1496275200000000000 Missing)) = Inr ''2017-06-01T00:00:00Z''"
  "\<forall>c \<in> set ''2017-06-01T00:00:00Z''. c \<in> set ''0123456789-:.+TZ''"
  "example_time_Parse ''2017-06-01T00:00:00Z'' = Inr 1496275200000000000"
  by (simp_all add: example_time_Format_def example_time_Parse_def start_def)

theorem cache_then_read_returns_the_same_valid_utf8_map_witness:
  "fst (PingURLs_Cache json_env pingURLsCachePath example_pingURLs
          (start 1496275200000000000 Missing)) =
     (\<lparr>LastUpdated = 1496275200000000000, PingURLs = example_pingURLs\<rparr>, None)
   \<and> ReadCachedURLsFile json_env pingURLsCachePath
        (snd (PingURLs_Cache json_env pingURLsCachePath example_pingURLs
                (start 1496275200000000000 Missing))) =
      (Some \<lparr>LastUpdated = 1496275200000000000, PingURLs = example_pingURLs\<rparr>, None)"
proof -
  have fin: "finite (dom example_pingURLs)" by (simp add: example_pingURLs_def)
  have "valid_utf8 ''queue''" "valid_utf8 ''https://queue.taskcluster.net/ping''"
    by (rule valid_utf8_ascii, simp)+
  then have valid: "\<forall>k v. example_pingURLs k = Some v \<longrightarrow> valid_utf8 k \<and> valid_utf8 v"
    by (auto simp: example_pingURLs_def split: if_splits)
  have c: "clock (start 1496275200000000000 Missing) = 1496275200000000000"
    by (simp add: start_def)
  note t = cache_then_read_returns_the_same_valid_utf8_map
         [OF json_env_fields(1,2) example_time json_env_fields(3) fin]
  from t have "fst (PingURLs_Cache json_env pingURLsCachePath example_pingURLs
          (start 1496275200000000000 Missing)) =
     (\<lparr>LastUpdated = clock (start 1496275200000000000 Missing), PingURLs = example_pingURLs\<rparr>,
      None)"
    by blast
  moreover from t valid have "ReadCachedURLsFile json_env pingURLsCachePath
        (snd (PingURLs_Cache json_env pingURLsCachePath example_pingURLs
                (start 1496275200000000000 Missing))) =
      (Some \<lparr>LastUpdated = 1496275200000000000, PingURLs = example_pingURLs\<rparr>, None)"
    by blast
  ultimately show ?thesis unfolding c by blast
qed

text \<open>
  C4 as stated fails for a map with a key that is not valid UTF-8: the service name
  is the single byte 0xFF; the file is written with the key escaped as U+FFFD, and the map
  loaded has the key U+FFFD (the bytes EF BF BD) and no key 0xFF.
\<close>

theorem invalid_utf8_key_is_not_loaded_back_counterexample:
  "fst (PingURLs_Cache json_env pingURLsCachePath invalid_pingURLs
          (start 1496275200000000000 Missing)) =
     (\<lparr>LastUpdated = 1496275200000000000, PingURLs = invalid_pingURLs\<rparr>, None)
   \<and> ReadCachedURLsFile json_env pingURLsCachePath
        (snd (PingURLs_Cache json_env pingURLsCachePath invalid_pingURLs
                (start 1496275200000000000 Missing))) =
      (Some \<lparr>LastUpdated = 1496275200000000000,
             PingURLs = [[CHR 0xEF, CHR 0xBF, CHR 0xBD] \<mapsto> ''https://queue.taskcluster.net/ping'']\<rparr>,
       None)
   \<and> invalid_pingURLs [CHR 0xFF] = Some ''https://queue.taskcluster.net/ping''
   \<and> [[CHR 0xEF, CHR 0xBF, CHR 0xBD] \<mapsto> ''https://queue.taskcluster.net/ping''] [CHR 0xFF] = None"
proof -
  have fin: "finite (dom invalid_pingURLs)" by (simp add: invalid_pingURLs_def)
  have c: "clock (start 1496275200000000000 Missing) = 1496275200000000000"
    by (simp add: start_def)
  have "sorted_list_of_set (dom invalid_pingURLs) = [[CHR 0xFF]]"
    by (simp add: invalid_pingURLs_def)
  then have p: "sorted_pairs invalid_pingURLs = [([CHR 0xFF], ''https://queue.taskcluster.net/ping'')]"
    by (simp add: sorted_pairs_def map_index_def invalid_pingURLs_def)
  have k: "coerce [CHR 0xFF] = [CHR 0xEF, CHR 0xBF, CHR 0xBD]"
    by (simp add: rune_size_def rune_len_def replacement_def)
  have "valid_utf8 ''https://queue.taskcluster.net/ping''" by (rule valid_utf8_ascii) simp
  then have v: "coerce ''https://queue.taskcluster.net/ping'' = ''https://queue.taskcluster.net/ping''"
    by (rule coerce_valid)
  have "foldl (\<lambda>acc kv. acc(fst kv \<mapsto> snd kv)) Map.empty
          (map coerce_pair (sorted_pairs invalid_pingURLs)) =
        [[CHR 0xEF, CHR 0xBF, CHR 0xBD] \<mapsto> ''https://queue.taskcluster.net/ping'']"
    unfolding p
    by (simp only: list.map coerce_pair_def fst_conv snd_conv k v foldl_Cons foldl_Nil)
  with Cache_then_Read [OF json_env_fields(1,2) example_time json_env_fields(3) fin] c
  show ?thesis by (simp add: invalid_pingURLs_def)
qed

end
